theory Spec2Isabelle
  imports Complex_Main "HOL-Library.List_Lexorder" "HOL-Library.Char_ord"
begin

section \<open>Trust Pooler reference implementation: mutex pool and long/short pool\<close>

text \<open>
  A shallow embedding of \<^verbatim>\<open>TrustPoolerReferenceImplementation/main.cpp\<close>.

  Conventions of the embedding.
  \<^item> \<^verbatim>\<open>double\<close> is the type \<open>dbl\<close>: a real number, or one of the special values
    \<open>+Inf\<close>, \<open>-Inf\<close>, \<open>NaN\<close> that a division by zero produces. The functions
    of the program are given twice. First with finite values computed exactly (no
    rounding, no overflow to infinity). Then, for the two settlements, with a rounding
    applied to the result of every operation (the functions named \<open>_rounded\<close>), which
    with \<open>round64\<close> is the arithmetic of IEEE 754 binary64. The sign of zero is not
    part of this embedding. The literals \<^verbatim>\<open>0.03\<close> and \<^verbatim>\<open>0.01\<close> are the
    rationals 3/100 and 1/100.
  \<^item> \<^verbatim>\<open>int\<close> (\<^verbatim>\<open>TxId\<close>, \<^verbatim>\<open>Price\<close>, \<^verbatim>\<open>Level\<close> of the long/short pool) is
    \<open>int\<close>; signed overflow is undefined in C++ and is not part of this embedding.
  \<^item> \<^verbatim>\<open>std::map\<close> is an association list in strictly ascending key order, which is
    the order in which the range-for loops of the source visit it; \<^verbatim>\<open>std::set\<close> is a
    strictly ascending list.
  \<^item> \<^verbatim>\<open>assert\<close> is enabled (no \<^verbatim>\<open>NDEBUG\<close>): a failed assertion ends the call with
    the error \<open>AssertionFailed\<close>. Reading \<^verbatim>\<open>*levels.begin()\<close> of an empty set ends
    it with \<open>UndefinedBehaviour\<close>.
  \<^item> Output to \<^verbatim>\<open>std::cout\<close> is left out.
\<close>

subsection \<open>double\<close>

datatype dbl = Fin real | PInf | NInf | NaN

fun isfinite :: "dbl \<Rightarrow> bool" where
  "isfinite (Fin a) = True"
| "isfinite PInf = False"
| "isfinite NInf = False"
| "isfinite NaN = False"

fun dneg :: "dbl \<Rightarrow> dbl" where
  "dneg (Fin a) = Fin (- a)"
| "dneg PInf = NInf"
| "dneg NInf = PInf"
| "dneg NaN = NaN"

fun dadd :: "dbl \<Rightarrow> dbl \<Rightarrow> dbl" where
  "dadd (Fin a) (Fin b) = Fin (a + b)"
| "dadd NaN b = NaN"
| "dadd a NaN = NaN"
| "dadd PInf NInf = NaN"
| "dadd NInf PInf = NaN"
| "dadd PInf b = PInf"
| "dadd a PInf = PInf"
| "dadd NInf b = NInf"
| "dadd a NInf = NInf"

definition dsub :: "dbl \<Rightarrow> dbl \<Rightarrow> dbl" where
  "dsub a b = dadd a (dneg b)"

text \<open>The sign of a value (0 for zero and NaN), and the infinity of a given sign
  (NaN for sign 0, as in \<open>0 * Inf\<close> and \<open>0 / 0\<close>).\<close>

fun dsgn :: "dbl \<Rightarrow> real" where
  "dsgn (Fin a) = sgn a"
| "dsgn PInf = 1"
| "dsgn NInf = - 1"
| "dsgn NaN = 0"

definition inf_of :: "real \<Rightarrow> dbl" where
  "inf_of s = (if 0 < s then PInf else if s < 0 then NInf else NaN)"

fun dmul :: "dbl \<Rightarrow> dbl \<Rightarrow> dbl" where
  "dmul (Fin a) (Fin b) = Fin (a * b)"
| "dmul NaN b = NaN"
| "dmul a NaN = NaN"
| "dmul a b = inf_of (dsgn a * dsgn b)"

fun ddiv :: "dbl \<Rightarrow> dbl \<Rightarrow> dbl" where
  "ddiv (Fin a) (Fin b) = (if b = 0 then inf_of (sgn a) else Fin (a / b))"
| "ddiv NaN b = NaN"
| "ddiv a NaN = NaN"
| "ddiv (Fin a) b = Fin 0"
| "ddiv a (Fin b) = inf_of (dsgn a * (if b < 0 then - 1 else 1))"
| "ddiv a b = NaN"

fun dless :: "dbl \<Rightarrow> dbl \<Rightarrow> bool" where
  "dless (Fin a) (Fin b) = (a < b)"
| "dless NaN b = False"
| "dless a NaN = False"
| "dless NInf NInf = False"
| "dless NInf b = True"
| "dless PInf b = False"
| "dless (Fin a) PInf = True"
| "dless (Fin a) NInf = False"

fun dfabs :: "dbl \<Rightarrow> dbl" where
  "dfabs (Fin a) = Fin \<bar>a\<bar>"
| "dfabs PInf = PInf"
| "dfabs NInf = PInf"
| "dfabs NaN = NaN"

text \<open>\<^verbatim>\<open>bool Close(double a, double b) { return fabs(a-b) < 0.01; }\<close>\<close>

definition Close :: "dbl \<Rightarrow> dbl \<Rightarrow> bool" where
  "Close a b = dless (dfabs (dsub a b)) (Fin (1 / 100))"

subsection \<open>Transactions and events\<close>

datatype Side = Long | Short | Neither

type_synonym TxId = int
type_synonym Amount = dbl
type_synonym Price = int

text \<open>\<^verbatim>\<open>struct DefaultTX\<close>; the member \<^verbatim>\<open>id\<close> is the field \<open>tx_id\<close>.\<close>

record DefaultTX =
  tx_id :: TxId
  amount :: Amount
  client_account :: string
  pool_account :: string
  payout :: Amount

text \<open>\<^verbatim>\<open>struct PoolEvent\<close>, the base of both event structs.\<close>

record PoolEvent =
  pool_share :: dbl
  winnings_share :: dbl
  payoff :: dbl

text \<open>
  Both event structs derive from \<^verbatim>\<open>PoolEvent\<close> and declare a member \<^verbatim>\<open>Tx tx\<close>; the
  \<^verbatim>\<open>Pool\<close> template reads and writes exactly \<^verbatim>\<open>risk.tx\<close> and \<^verbatim>\<open>b.payoff\<close> of its
  \<^verbatim>\<open>EVENT\<close> parameter. The record \<open>TxEvent\<close> is that common part, so that the
  functions of the template are written once, for every extension of it.
\<close>

record TxEvent = PoolEvent +
  tx :: DefaultTX

text \<open>\<^verbatim>\<open>struct MutexEvent : PoolEvent\<close>\<close>

record MutexEvent = TxEvent +
  event :: string

text \<open>\<^verbatim>\<open>struct LongShortEvent : PoolEvent\<close>\<close>

record LongShortEvent = TxEvent +
  side :: Side
  price :: Price
  prima_facie_payoff :: dbl
  prima_facie_payout :: dbl
  inverse_distance_to_the_pin :: dbl
  inverse_distance_to_pin_normalised :: dbl
  adjusted_amount :: dbl

definition DefaultTX_init :: DefaultTX where
  "DefaultTX_init =
     \<lparr>tx_id = 0, amount = Fin 0, client_account = [], pool_account = [], payout = Fin 0\<rparr>"

text \<open>\<^verbatim>\<open>MutexEvent()\<close>, \<^verbatim>\<open>MutexEvent(const std::string& e)\<close>\<close>

definition MutexEvent_init :: MutexEvent where
  "MutexEvent_init =
     \<lparr>pool_share = Fin 0, winnings_share = Fin 0, payoff = Fin 0, tx = DefaultTX_init,
      event = []\<rparr>"

definition MutexEvent_make :: "string \<Rightarrow> MutexEvent" where
  "MutexEvent_make e = MutexEvent_init\<lparr>event := e\<rparr>"

text \<open>
  \<^verbatim>\<open>Risk{}\<close> of the long/short pool: value initialisation, every member zero
  (\<^verbatim>\<open>Side::Long\<close> is the enumerator 0). The constructor
  \<^verbatim>\<open>LongShortEvent(Side s, Price p)\<close> leaves \<^verbatim>\<open>inverse_distance_to_pin_normalised\<close>,
  the one member without an initialiser, indeterminate: \<open>u\<close> stands for its content.
\<close>

definition LongShortEvent_init :: LongShortEvent where
  "LongShortEvent_init =
     \<lparr>pool_share = Fin 0, winnings_share = Fin 0, payoff = Fin 0, tx = DefaultTX_init,
      side = Long, price = 0, prima_facie_payoff = Fin 0, prima_facie_payout = Fin 0,
      inverse_distance_to_the_pin = Fin 0, inverse_distance_to_pin_normalised = Fin 0,
      adjusted_amount = Fin 0\<rparr>"

definition LongShortEvent_make :: "Side \<Rightarrow> Price \<Rightarrow> dbl \<Rightarrow> LongShortEvent" where
  "LongShortEvent_make s p u =
     LongShortEvent_init\<lparr>side := s, price := p, inverse_distance_to_pin_normalised := u\<rparr>"

text \<open>Member functions of \<^verbatim>\<open>MutexEvent\<close>; its \<^verbatim>\<open>Level\<close> is \<^verbatim>\<open>std::string\<close>.\<close>

definition MutexEvent_IsWinner :: "MutexEvent \<Rightarrow> string \<Rightarrow> bool" where
  "MutexEvent_IsWinner r level = (event r = level)"

definition MutexEvent_WinningAmount :: "MutexEvent \<Rightarrow> string \<Rightarrow> Amount" where
  "MutexEvent_WinningAmount r level = (if level = event r then amount (tx r) else Fin 0)"

definition MutexEvent_GetLevel :: "MutexEvent \<Rightarrow> string" where
  "MutexEvent_GetLevel r = event r"

text \<open>Member functions of \<^verbatim>\<open>LongShortEvent\<close>; its \<^verbatim>\<open>Level\<close> is \<^verbatim>\<open>int\<close>.\<close>

definition LongShortEvent_IsWinner :: "LongShortEvent \<Rightarrow> int \<Rightarrow> bool" where
  "LongShortEvent_IsWinner r level =
     (if side r = Long \<and> level > price r then True
      else if side r = Short \<and> level < price r then True
      else False)"

definition LongShortEvent_WinningAmount :: "LongShortEvent \<Rightarrow> int \<Rightarrow> Amount" where
  "LongShortEvent_WinningAmount r level =
     (if side r = Long \<and> level > price r then amount (tx r)
      else if side r = Short \<and> level < price r then amount (tx r)
      else Fin 0)"

definition WinningInverseDistance :: "LongShortEvent \<Rightarrow> Price \<Rightarrow> dbl" where
  "WinningInverseDistance r closing_price =
     (if side r = Long \<and> closing_price > price r
        then ddiv (Fin 1) (Fin (of_int (closing_price - price r)))
      else if side r = Short \<and> closing_price < price r
        then ddiv (Fin 1) (Fin (of_int (price r - closing_price)))
      else Fin 1)"

definition LongShortEvent_GetLevel :: "LongShortEvent \<Rightarrow> int" where
  "LongShortEvent_GetLevel r = price r"

subsection \<open>std::map and std::set\<close>

text \<open>\<^verbatim>\<open>m[k] = v\<close>: insert at the place of the key, or overwrite.\<close>

fun map_set :: "'k::linorder \<Rightarrow> 'v \<Rightarrow> ('k \<times> 'v) list \<Rightarrow> ('k \<times> 'v) list" where
  "map_set k v [] = [(k, v)]"
| "map_set k v ((k', v') # m) =
     (if k < k' then (k, v) # (k', v') # m
      else if k = k' then (k, v) # m
      else (k', v') # map_set k v m)"

text \<open>The invariant of \<^verbatim>\<open>std::map\<close>: keys strictly ascending.\<close>

definition map_ok :: "('k::linorder \<times> 'v) list \<Rightarrow> bool" where
  "map_ok m = sorted_wrt (<) (map fst m)"

subsection \<open>The Pool template\<close>

text \<open>
  What \<^verbatim>\<open>Pool<D, EVENT>\<close> uses of its parameter \<^verbatim>\<open>EVENT\<close>, passed as a record of
  functions: the member functions, the value \<^verbatim>\<open>Risk{}\<close>, and, when
  \<^verbatim>\<open>std::is_arithmetic_v<Level>\<close> holds, the two functions \<^verbatim>\<open>l-1\<close> and \<^verbatim>\<open>l+1\<close>.
\<close>

record ('e, 'l) EVENT =
  IsWinner :: "'e \<Rightarrow> 'l \<Rightarrow> bool"
  WinningAmount :: "'e \<Rightarrow> 'l \<Rightarrow> Amount"
  GetLevel :: "'e \<Rightarrow> 'l"
  Risk_init :: "'e"
  is_arithmetic :: "(('l \<Rightarrow> 'l) \<times> ('l \<Rightarrow> 'l)) option"

definition MutexEvent_EVENT :: "(MutexEvent, string) EVENT" where
  "MutexEvent_EVENT =
     \<lparr>IsWinner = MutexEvent_IsWinner, WinningAmount = MutexEvent_WinningAmount,
      GetLevel = MutexEvent_GetLevel, Risk_init = MutexEvent_init, is_arithmetic = None\<rparr>"

definition LongShortEvent_EVENT :: "(LongShortEvent, int) EVENT" where
  "LongShortEvent_EVENT =
     \<lparr>IsWinner = LongShortEvent_IsWinner, WinningAmount = LongShortEvent_WinningAmount,
      GetLevel = LongShortEvent_GetLevel, Risk_init = LongShortEvent_init,
      is_arithmetic = Some (\<lambda>l. l - 1, \<lambda>l. l + 1)\<rparr>"

text \<open>
  The data members of \<^verbatim>\<open>Pool\<close>. The counter \<^verbatim>\<open>TxId tx{}\<close> is the field \<open>tx_counter\<close>
  (the name \<open>tx\<close> is the event's transaction).
\<close>

record 'e Pool =
  tx_counter :: TxId
  fees :: dbl
  risks :: "(TxId \<times> 'e) list"

definition Pool_init :: "'e Pool" where
  "Pool_init = \<lparr>tx_counter = 0, fees = Fin (3 / 100), risks = []\<rparr>"

declare Pool_init_def [code_unfold]

datatype error = AssertionFailed | UndefinedBehaviour

definition PoolAccount :: string where
  "PoolAccount = ''Pool_Account_Address''"

text \<open>\<^verbatim>\<open>TxId MakeRisk(const Event& event, Amount amount, const std::string& who)\<close>:
  the returned id and the pool after the call.\<close>

definition MakeRisk ::
  "('a TxEvent_scheme) Pool \<Rightarrow> 'a TxEvent_scheme \<Rightarrow> Amount \<Rightarrow> string
     \<Rightarrow> TxId \<times> ('a TxEvent_scheme) Pool" where
  "MakeRisk p ev amt who =
     (let risk = ev\<lparr>tx := (tx ev)\<lparr>tx_id := tx_counter p, amount := amt,
                                  client_account := who, pool_account := PoolAccount\<rparr>\<rparr>
      in (tx_id (tx risk),
          p\<lparr>tx_counter := tx_counter p + 1,
            risks := map_set (tx_counter p) risk (risks p)\<rparr>))"

definition TotalPool :: "('a TxEvent_scheme) Pool \<Rightarrow> Amount" where
  "TotalPool p = foldl (\<lambda>result (k, risk). dadd result (amount (tx risk))) (Fin 0) (risks p)"

definition TotalWinningAmount :: "('e, 'l) EVENT \<Rightarrow> 'e Pool \<Rightarrow> 'l \<Rightarrow> Amount" where
  "TotalWinningAmount E p level =
     foldl (\<lambda>result (k, risk). dadd result (WinningAmount E risk level)) (Fin 0) (risks p)"

definition Fees :: "('a TxEvent_scheme) Pool \<Rightarrow> Amount" where
  "Fees p = dmul (TotalPool p) (fees p)"

text \<open>\<^verbatim>\<open>std::set<Level> MakeLevelSet() const\<close>\<close>

definition MakeLevelSet :: "('e, 'l::linorder) EVENT \<Rightarrow> 'e Pool \<Rightarrow> error + 'l list" where
  "MakeLevelSet E p =
     (let levels = foldl (\<lambda>ls (k, risk). insort_insert (GetLevel E risk) ls) [] (risks p)
      in case is_arithmetic E of
           None \<Rightarrow> Inr levels
         | Some (one_under, one_over) \<Rightarrow>
             if levels = [] then Inl UndefinedBehaviour
             else let min_level = hd levels; max_level = last levels
                  in Inr (insort_insert (one_over max_level)
                            (insort_insert (one_under min_level) levels)))"

subsection \<open>MutexPool\<close>

text \<open>The body of the loop for a winner: \<^verbatim>\<open>Risk winning_risk{risk}\<close> and the four
  assignments to it.\<close>

definition MutexPool_winning_risk :: "dbl \<Rightarrow> dbl \<Rightarrow> MutexEvent \<Rightarrow> MutexEvent" where
  "MutexPool_winning_risk total_pool_value total_win_value risk =
     (let w1 = risk\<lparr>pool_share := ddiv (amount (tx risk)) total_pool_value\<rparr>;
          w2 = w1\<lparr>winnings_share := ddiv (amount (tx risk)) total_win_value\<rparr>;
          w3 = w2\<lparr>payoff := ddiv total_pool_value total_win_value\<rparr>
      in w3\<lparr>tx := (tx w3)\<lparr>payout := dmul (amount (tx risk)) (payoff w3)\<rparr>\<rparr>)"

fun MutexPool_loop ::
  "dbl \<Rightarrow> dbl \<Rightarrow> string \<Rightarrow> (TxId \<times> MutexEvent) list
     \<Rightarrow> (TxId \<times> MutexEvent) list \<times> dbl \<Rightarrow> (TxId \<times> MutexEvent) list \<times> dbl" where
  "MutexPool_loop total_pool_value total_win_value level [] acc = acc"
| "MutexPool_loop total_pool_value total_win_value level ((k, risk) # rest)
       (winning_risks, total_payout) =
     (if MutexEvent_IsWinner risk level then
        let winning_risk = MutexPool_winning_risk total_pool_value total_win_value risk
        in MutexPool_loop total_pool_value total_win_value level rest
             (map_set k winning_risk winning_risks,
              dadd total_payout (payout (tx winning_risk)))
      else MutexPool_loop total_pool_value total_win_value level rest
             (winning_risks, total_payout))"

definition MutexPool_MakeWinningRisks ::
  "MutexEvent Pool \<Rightarrow> string \<Rightarrow> error + (TxId \<times> MutexEvent) list" where
  "MutexPool_MakeWinningRisks p level =
     (let total_pool_value = dmul (TotalPool p) (dsub (Fin 1) (fees p));
          total_win_value = TotalWinningAmount MutexEvent_EVENT p level;
          (winning_risks, total_payout) =
             MutexPool_loop total_pool_value total_win_value level (risks p) ([], Fin 0)
      in if Close (dadd total_payout (Fees p)) (TotalPool p) then Inr winning_risks
         else Inl AssertionFailed)"

subsection \<open>LongShortPool\<close>

text \<open>The body of the first loop for a winner: \<^verbatim>\<open>Risk winning_risk{risk}\<close> and the
  five assignments to it.\<close>

definition LongShortPool_winning_risk ::
  "dbl \<Rightarrow> dbl \<Rightarrow> int \<Rightarrow> LongShortEvent \<Rightarrow> LongShortEvent" where
  "LongShortPool_winning_risk total_pool_value total_win_value level risk =
     (let w1 = risk\<lparr>pool_share := ddiv (amount (tx risk)) total_pool_value\<rparr>;
          w2 = w1\<lparr>winnings_share := ddiv (amount (tx risk)) total_win_value\<rparr>;
          w3 = w2\<lparr>prima_facie_payoff := ddiv total_pool_value total_win_value\<rparr>;
          w4 = w3\<lparr>prima_facie_payout := dmul (amount (tx risk)) (prima_facie_payoff w3)\<rparr>
      in w4\<lparr>inverse_distance_to_the_pin := WinningInverseDistance risk level\<rparr>)"

text \<open>The first loop: over all risks, picking the winners.\<close>

fun LongShortPool_loop1 ::
  "dbl \<Rightarrow> dbl \<Rightarrow> int \<Rightarrow> (TxId \<times> LongShortEvent) list
     \<Rightarrow> (TxId \<times> LongShortEvent) list \<times> dbl \<times> dbl
     \<Rightarrow> (TxId \<times> LongShortEvent) list \<times> dbl \<times> dbl" where
  "LongShortPool_loop1 total_pool_value total_win_value level [] acc = acc"
| "LongShortPool_loop1 total_pool_value total_win_value level ((k, risk) # rest)
       (winning_risks, total_inverse_distance_to_pin, total_prima_facie_payout) =
     (if LongShortEvent_IsWinner risk level then
        let winning_risk =
              LongShortPool_winning_risk total_pool_value total_win_value level risk
        in LongShortPool_loop1 total_pool_value total_win_value level rest
             (map_set k winning_risk winning_risks,
              dadd total_inverse_distance_to_pin (inverse_distance_to_the_pin winning_risk),
              dadd total_prima_facie_payout (prima_facie_payout winning_risk))
      else LongShortPool_loop1 total_pool_value total_win_value level rest
             (winning_risks, total_inverse_distance_to_pin, total_prima_facie_payout))"

text \<open>The body of the second loop: the four assignments to a winner.\<close>

definition LongShortPool_reweight :: "dbl \<Rightarrow> dbl \<Rightarrow> LongShortEvent \<Rightarrow> LongShortEvent" where
  "LongShortPool_reweight total_inverse_distance_to_pin total_win_value w =
     (let w1 = w\<lparr>inverse_distance_to_pin_normalised :=
                    ddiv (inverse_distance_to_the_pin w) total_inverse_distance_to_pin\<rparr>;
          w2 = w1\<lparr>adjusted_amount :=
                    dmul (inverse_distance_to_pin_normalised w1) total_win_value\<rparr>;
          w3 = w2\<lparr>tx := (tx w2)\<lparr>payout :=
                    dmul (adjusted_amount w2) (prima_facie_payoff w2)\<rparr>\<rparr>
      in w3\<lparr>payoff := ddiv (payout (tx w3)) (amount (tx w3))\<rparr>)"

text \<open>The second loop: over the winners, which it changes in place.\<close>

fun LongShortPool_loop2 ::
  "dbl \<Rightarrow> dbl \<Rightarrow> (TxId \<times> LongShortEvent) list \<Rightarrow> dbl
     \<Rightarrow> (TxId \<times> LongShortEvent) list \<times> dbl" where
  "LongShortPool_loop2 total_inverse_distance_to_pin total_win_value [] total_payout =
     ([], total_payout)"
| "LongShortPool_loop2 total_inverse_distance_to_pin total_win_value ((k, w) # rest)
       total_payout =
     (let winning_risk =
            LongShortPool_reweight total_inverse_distance_to_pin total_win_value w;
          (rest', total_payout') =
             LongShortPool_loop2 total_inverse_distance_to_pin total_win_value rest
               (dadd total_payout (payout (tx winning_risk)))
      in ((k, winning_risk) # rest', total_payout'))"

definition LongShortPool_MakeWinningRisks ::
  "LongShortEvent Pool \<Rightarrow> int \<Rightarrow> error + (TxId \<times> LongShortEvent) list" where
  "LongShortPool_MakeWinningRisks p level =
     (let total_pool_value = dmul (TotalPool p) (dsub (Fin 1) (fees p));
          total_win_value = TotalWinningAmount LongShortEvent_EVENT p level;
          (winning_risks1, total_inverse_distance_to_pin, total_prima_facie_payout) =
             LongShortPool_loop1 total_pool_value total_win_value level (risks p)
               ([], Fin 0, Fin 0);
          (winning_risks, total_payout) =
             LongShortPool_loop2 total_inverse_distance_to_pin total_win_value
               winning_risks1 (Fin 0)
      in if \<not> Close (dadd total_prima_facie_payout (Fees p)) (TotalPool p)
           then Inl AssertionFailed
         else if \<not> Close total_prima_facie_payout total_payout then Inl AssertionFailed
         else Inr winning_risks)"

subsection \<open>Pro-forma valuation\<close>

text \<open>
  \<^verbatim>\<open>ProFormaReturnHelper\<close> changes the pool it is called on; the function gives the
  returned risk (or the error that ended the call) and the pool after the call.
  \<open>mwr\<close> is \<^verbatim>\<open>static_cast<D*>(this)->MakeWinningRisks\<close>. \<^verbatim>\<open>winning_risks.at\<close> throws
  for a missing key, and the handler returns \<^verbatim>\<open>Risk{}\<close>.
\<close>

definition ProFormaReturnHelper ::
  "('a TxEvent_scheme, 'l) EVENT
     \<Rightarrow> (('a TxEvent_scheme) Pool \<Rightarrow> 'l \<Rightarrow> error + (TxId \<times> 'a TxEvent_scheme) list)
     \<Rightarrow> ('a TxEvent_scheme) Pool \<Rightarrow> 'a TxEvent_scheme \<Rightarrow> Amount \<Rightarrow> 'l
     \<Rightarrow> (error + 'a TxEvent_scheme) \<times> ('a TxEvent_scheme) Pool" where
  "ProFormaReturnHelper E mwr p ev amt level =
     (let (tx_id, p') = MakeRisk p ev amt ''Hypothetical''
      in case mwr p' level of
           Inl e \<Rightarrow> (Inl e, p')
         | Inr winning_risks \<Rightarrow>
             (case map_of winning_risks tx_id of
                Some r \<Rightarrow> (Inr r, p')
              | None \<Rightarrow> (Inr (Risk_init E), p')))"

text \<open>
  The pool objects of a run live in a store, a list indexed by address. A member
  function that changes its object is called at an address.
\<close>

definition call_at :: "('p \<Rightarrow> 'r \<times> 'p) \<Rightarrow> 'p list \<Rightarrow> nat \<Rightarrow> 'r \<times> 'p list" where
  "call_at m s this = (let (r, p') = m (s ! this) in (r, s[this := p']))"

text \<open>
  \<^verbatim>\<open>ProFormaReturn\<close>: the local \<^verbatim>\<open>Self pool{*this}\<close> is a new object, a copy of the
  pool at \<open>this\<close>; the helper is called on it; it is destroyed at the end of the call.
\<close>

definition ProFormaReturn ::
  "('a TxEvent_scheme, 'l) EVENT
     \<Rightarrow> (('a TxEvent_scheme) Pool \<Rightarrow> 'l \<Rightarrow> error + (TxId \<times> 'a TxEvent_scheme) list)
     \<Rightarrow> ('a TxEvent_scheme) Pool list \<Rightarrow> nat \<Rightarrow> 'a TxEvent_scheme \<Rightarrow> Amount \<Rightarrow> 'l
     \<Rightarrow> (error + 'a TxEvent_scheme) \<times> ('a TxEvent_scheme) Pool list" where
  "ProFormaReturn E mwr s this ev amt level =
     (let pool = length s;
          s1 = s @ [s ! this];
          (r, s2) = call_at (\<lambda>p. ProFormaReturnHelper E mwr p ev amt level) s1 pool
      in (r, take pool s2))"

text \<open>
  \<^verbatim>\<open>ForEachLevel\<close> calls \<open>f\<close> on every level of the level set, in ascending order;
  \<open>f\<close> works on a state and may end the run with an error.
\<close>

fun ForEachLevel_loop ::
  "('l \<Rightarrow> 'st \<Rightarrow> error option \<times> 'st) \<Rightarrow> 'l list \<Rightarrow> 'st \<Rightarrow> error option \<times> 'st" where
  "ForEachLevel_loop f [] st = (None, st)"
| "ForEachLevel_loop f (l # levels) st =
     (case f l st of
        (Some e, st') \<Rightarrow> (Some e, st')
      | (None, st') \<Rightarrow> ForEachLevel_loop f levels st')"

definition ForEachLevel ::
  "('e, 'l::linorder) EVENT \<Rightarrow> 'e Pool \<Rightarrow> ('l \<Rightarrow> 'st \<Rightarrow> error option \<times> 'st) \<Rightarrow> 'st
     \<Rightarrow> error option \<times> 'st" where
  "ForEachLevel E p f st =
     (case MakeLevelSet E p of
        Inl e \<Rightarrow> (Some e, st)
      | Inr levels \<Rightarrow> ForEachLevel_loop f levels st)"

text \<open>\<^verbatim>\<open>ProFormaPayoffCurve\<close>: the state of the loop is the map \<^verbatim>\<open>result\<close> and the store.\<close>

definition ProFormaPayoffCurve ::
  "('a TxEvent_scheme, 'l::linorder) EVENT
     \<Rightarrow> (('a TxEvent_scheme) Pool \<Rightarrow> 'l \<Rightarrow> error + (TxId \<times> 'a TxEvent_scheme) list)
     \<Rightarrow> ('a TxEvent_scheme) Pool list \<Rightarrow> nat \<Rightarrow> 'a TxEvent_scheme \<Rightarrow> Amount
     \<Rightarrow> (error + ('l \<times> dbl) list) \<times> ('a TxEvent_scheme) Pool list" where
  "ProFormaPayoffCurve E mwr s this ev amt =
     (case ForEachLevel E (s ! this)
             (\<lambda>level (result, s').
                case ProFormaReturn E mwr s' this ev amt level of
                  (Inl e, s'') \<Rightarrow> (Some e, (result, s''))
                | (Inr b, s'') \<Rightarrow> (None, (map_set level (payoff b) result, s'')))
             ([], s) of
        (Some e, (result, s')) \<Rightarrow> (Inl e, s')
      | (None, (result, s')) \<Rightarrow> (Inr result, s'))"

subsection \<open>Runs of registrations, and the pools of \<^verbatim>\<open>main\<close>\<close>

text \<open>A sequence of calls of \<^verbatim>\<open>MakeRisk\<close> on one pool: the returned ids, in order, and
  the pool after the last call.\<close>

fun register_all ::
  "('a TxEvent_scheme) Pool \<Rightarrow> ('a TxEvent_scheme \<times> Amount \<times> string) list
     \<Rightarrow> TxId list \<times> ('a TxEvent_scheme) Pool" where
  "register_all p [] = ([], p)"
| "register_all p ((ev, amt, who) # rest) =
     (let (i, p') = MakeRisk p ev amt who;
          (ids, p'') = register_all p' rest
      in (i # ids, p''))"

text \<open>The risk that \<^verbatim>\<open>MakeRisk\<close> builds from the event it is given.\<close>

definition stamp :: "'a TxEvent_scheme \<Rightarrow> TxId \<Rightarrow> Amount \<Rightarrow> string \<Rightarrow> 'a TxEvent_scheme" where
  "stamp ev i amt who =
     ev\<lparr>tx := (tx ev)\<lparr>tx_id := i, amount := amt, client_account := who,
                        pool_account := PoolAccount\<rparr>\<rparr>"

text \<open>The keys of the pool are 0, 1, ... in order, and the counter is their number.\<close>

definition ids_ok :: "'e Pool \<Rightarrow> bool" where
  "ids_ok p = (map fst (risks p) = map int [0..<length (risks p)]
                \<and> tx_counter p = int (length (risks p)))"

text \<open>\<^verbatim>\<open>mutex_pool\<close> and \<^verbatim>\<open>ls_pool\<close> as \<^verbatim>\<open>main\<close> fills them; \<open>u\<close> is the content of
  the member that the constructor of \<^verbatim>\<open>LongShortEvent\<close> leaves indeterminate.\<close>

definition mutex_pool :: "MutexEvent Pool" where
  "mutex_pool = snd (register_all Pool_init
     [(MutexEvent_make ''default'', Fin 500, ''barney''),
      (MutexEvent_make ''default'', Fin 2500, ''barney''),
      (MutexEvent_make ''no_default'', Fin 10000, ''arnold''),
      (MutexEvent_make ''no_default'', Fin 5000, ''arnold'')])"

definition ls_pool :: "dbl \<Rightarrow> LongShortEvent Pool" where
  "ls_pool u = snd (register_all Pool_init
     [(LongShortEvent_make Long 50 u, Fin 500, ''barney''),
      (LongShortEvent_make Long 55 u, Fin 250, ''barney''),
      (LongShortEvent_make Long 60 u, Fin 1000, ''barney''),
      (LongShortEvent_make Short 60 u, Fin 700, ''arnold''),
      (LongShortEvent_make Short 55 u, Fin 900, ''arnold''),
      (LongShortEvent_make Short 50 u, Fin 1000, ''arnold''),
      (LongShortEvent_make Short 40 u, Fin 1500, ''arnold'')])"

subsection \<open>Sums over a mapping, and ledgers of finite amounts\<close>

text \<open>The sum of a member over the entries of a mapping, accumulated from \<^verbatim>\<open>0.0\<close> in
  key order, as the loops of the source accumulate their totals.\<close>

definition total_of :: "('e \<Rightarrow> dbl) \<Rightarrow> (TxId \<times> 'e) list \<Rightarrow> dbl" where
  "total_of f m = foldl (\<lambda>result (k, r). dadd result (f r)) (Fin 0) m"

text \<open>The fee rate and every stake amount are numbers (neither infinite nor NaN).\<close>

definition pool_finite :: "('a TxEvent_scheme) Pool \<Rightarrow> bool" where
  "pool_finite p =
     (isfinite (fees p) \<and> list_all (\<lambda>(k, r). isfinite (amount (tx r))) (risks p))"

text \<open>The value of a finite double.\<close>

fun val :: "dbl \<Rightarrow> real" where
  "val (Fin a) = a"
| "val PInf = 0"
| "val NInf = 0"
| "val NaN = 0"

text \<open>The entries of a mapping that win at a level.\<close>

definition winners :: "('e \<Rightarrow> 'l \<Rightarrow> bool) \<Rightarrow> 'l \<Rightarrow> (TxId \<times> 'e) list \<Rightarrow> (TxId \<times> 'e) list" where
  "winners isw level m = filter (\<lambda>(k, r). isw r level) m"

text \<open>The stake of an entry, as a real number.\<close>

definition stake :: "TxId \<times> 'a TxEvent_scheme \<Rightarrow> real" where
  "stake x = val (amount (tx (snd x)))"

text \<open>A winner after both loops of \<^verbatim>\<open>LongShortPool::MakeWinningRisks\<close>.\<close>

definition LongShortPool_settled :: "dbl \<Rightarrow> dbl \<Rightarrow> dbl \<Rightarrow> int \<Rightarrow> LongShortEvent \<Rightarrow> LongShortEvent" where
  "LongShortPool_settled pv wv tid level r =
     LongShortPool_reweight tid wv (LongShortPool_winning_risk pv wv level r)"

text \<open>The distance of the price of a risk to the closing price, and its inverse as a
  real number.\<close>

definition distance_to_pin :: "LongShortEvent \<Rightarrow> Price \<Rightarrow> int" where
  "distance_to_pin r closing_price = \<bar>closing_price - price r\<bar>"

definition inv_distance :: "Price \<Rightarrow> TxId \<times> LongShortEvent \<Rightarrow> real" where
  "inv_distance closing_price x = 1 / of_int (distance_to_pin (snd x) closing_price)"

text \<open>A mutex pool with a single stake of one cent.\<close>

definition cent_pool :: "MutexEvent Pool" where
  "cent_pool = snd (register_all Pool_init
     [(MutexEvent_make ''default'', Fin (1 / 100), ''barney'')])"

text \<open>Every stake amount is greater than zero; every stake amount is at least zero.\<close>

definition amounts_positive :: "('a TxEvent_scheme) Pool \<Rightarrow> bool" where
  "amounts_positive p = list_all (\<lambda>(k, r). dless (Fin 0) (amount (tx r))) (risks p)"

definition amounts_nonnegative :: "('a TxEvent_scheme) Pool \<Rightarrow> bool" where
  "amounts_nonnegative p = list_all (\<lambda>(k, r). \<not> dless (amount (tx r)) (Fin 0)) (risks p)"

text \<open>A long/short pool with two long stakes: 1000 at price 55 and 1 at price 50.\<close>

definition pin_pool :: "dbl \<Rightarrow> LongShortEvent Pool" where
  "pin_pool u = snd (register_all Pool_init
     [(LongShortEvent_make Long 55 u, Fin 1000, ''barney''),
      (LongShortEvent_make Long 50 u, Fin 1, ''arnold'')])"

text \<open>The levels of the risks of a pool, as a set.\<close>

definition level_keys :: "('e, 'l) EVENT \<Rightarrow> 'e Pool \<Rightarrow> 'l set" where
  "level_keys E p = GetLevel E ` snd ` set (risks p)"

subsection \<open>Rounding to binary64\<close>

text \<open>
  The nearest integer, ties to the even one.
\<close>

definition round_even :: "real \<Rightarrow> int" where
  "round_even q =
     (let n = \<lfloor>q\<rfloor>; r = q - of_int n
      in if r < 1 / 2 then n else if 1 / 2 < r then n + 1 else if even n then n else n + 1)"

text \<open>
  IEEE 754 binary64 in the default rounding mode (to nearest, ties to even). A finite
  double is \<open>n * 2 ^ (e - 52)\<close> for integers \<open>\<bar>n\<bar> < 2 ^ 53\<close> and \<open>- 1022 \<le> e \<le> 1023\<close>.
  \<open>round64 x\<close> is the double that an operation with the exact result \<open>x\<close> delivers: \<open>e\<close>
  is the least exponent of the range with \<open>\<bar>x\<bar> < 2 ^ (e + 1)\<close> (so \<open>- 1022\<close> for zero and
  the subnormal numbers), \<open>x\<close> is rounded to a multiple of \<open>2 ^ (e - 52)\<close>, and a result
  of magnitude \<open>2 ^ 1024\<close> or more is the infinity of the sign of \<open>x\<close>.
\<close>

fun round64 :: "dbl \<Rightarrow> dbl" where
  "round64 (Fin x) =
     (case find (\<lambda>e. \<bar>x\<bar> < 2 powi (e + 1)) [- 1022..1023] of
        None \<Rightarrow> if 0 < x then PInf else NInf
      | Some e \<Rightarrow>
          let y = of_int (round_even (x / 2 powi (e - 52))) * 2 powi (e - 52)
          in if \<bar>y\<bar> < 2 powi 1024 then Fin y else if 0 < x then PInf else NInf)"
| "round64 PInf = PInf"
| "round64 NInf = NInf"
| "round64 NaN = NaN"

declare round64.simps(1) [simp del]

subsection \<open>The settlements, with rounding\<close>














text \<open>The sum of a member over the entries of a mapping, accumulated with rounding.\<close>

definition total_of_rounded ::
  "(dbl \<Rightarrow> dbl) \<Rightarrow> ('e \<Rightarrow> dbl) \<Rightarrow> (TxId \<times> 'e) list \<Rightarrow> dbl" where
  "total_of_rounded rd f m = foldl (\<lambda>result (k, r). rd (dadd result (f r))) (Fin 0) m"





text \<open>The closing price, the prices of the risks and their differences are values of
  a 32-bit \<^verbatim>\<open>int\<close>: no subtraction of the settlement overflows.\<close>

definition int_range :: "int \<Rightarrow> bool" where
  "int_range i = (- (2 ^ 31) \<le> i \<and> i < 2 ^ 31)"

definition prices_in_range :: "LongShortEvent Pool \<Rightarrow> Price \<Rightarrow> bool" where
  "prices_in_range p closing_price =
     (int_range closing_price
      \<and> list_all (\<lambda>(k, r). int_range (price r) \<and> int_range (closing_price - price r)
                           \<and> int_range (price r - closing_price)) (risks p))"

section \<open>Properties\<close>

subsection \<open>std::map\<close>

lemma map_of_map_set_same: "map_of (map_set k v m) k = Some v"
  by (induction m) auto

lemma map_of_map_set_other: "k' \<noteq> k \<Longrightarrow> map_of (map_set k v m) k' = map_of m k'"
  by (induction m) auto

lemma map_set_append: "\<forall>k' \<in> fst ` set m. k' < k \<Longrightarrow> map_set k v m = m @ [(k, v)]"
  by (induction m) auto

lemma set_map_set_subset: "set (map_set k v m) \<subseteq> insert (k, v) (set m)"
  by (induction m) (auto split: if_splits)

subsection \<open>MakeRisk\<close>

lemma MakeRisk_fst: "fst (MakeRisk p ev amt who) = tx_counter p"
  by (simp add: MakeRisk_def Let_def)

lemma MakeRisk_counter: "tx_counter (snd (MakeRisk p ev amt who)) = tx_counter p + 1"
  by (simp add: MakeRisk_def Let_def)

lemma MakeRisk_fees: "fees (snd (MakeRisk p ev amt who)) = fees p"
  by (simp add: MakeRisk_def Let_def)

lemma MakeRisk_risks:
  "risks (snd (MakeRisk p ev amt who)) =
     map_set (tx_counter p) (stamp ev (tx_counter p) amt who) (risks p)"
  by (simp add: MakeRisk_def Let_def stamp_def)

lemma MakeRisk_stored:
  "map_of (risks (snd (MakeRisk p ev amt who))) (tx_counter p) =
     Some (stamp ev (tx_counter p) amt who)"
  by (simp add: MakeRisk_risks map_of_map_set_same)

lemma ids_ok_MakeRisk_risks:
  assumes "ids_ok p"
  shows "risks (snd (MakeRisk p ev amt who)) =
           risks p @ [(tx_counter p, stamp ev (tx_counter p) amt who)]"
proof -
  from assms have e: "map fst (risks p) = map int [0..<length (risks p)]"
    by (simp add: ids_ok_def)
  have "set (map fst (risks p)) = set (map int [0..<length (risks p)])"
    by (simp only: e)
  then have keys: "fst ` set (risks p) = int ` {0..<length (risks p)}"
    by simp
  have "\<forall>k' \<in> fst ` set (risks p). k' < tx_counter p"
    unfolding keys using assms by (auto simp: ids_ok_def)
  then show ?thesis by (simp add: MakeRisk_risks map_set_append)
qed

lemma ids_ok_MakeRisk: "ids_ok p \<Longrightarrow> ids_ok (snd (MakeRisk p ev amt who))"
  using ids_ok_MakeRisk_risks[of p ev amt who]
  by (simp add: ids_ok_def MakeRisk_counter)

lemma register_all_run:
  "ids_ok p \<Longrightarrow>
     fst (register_all p regs) = map (\<lambda>n. tx_counter p + int n) [0..<length regs]
   \<and> tx_counter (snd (register_all p regs)) = tx_counter p + int (length regs)
   \<and> fees (snd (register_all p regs)) = fees p
   \<and> risks (snd (register_all p regs)) =
       risks p @ map (\<lambda>(n, ev, amt, who).
                        (tx_counter p + int n, stamp ev (tx_counter p + int n) amt who))
                     (enumerate 0 regs)"
proof (induction regs arbitrary: p)
  case Nil
  then show ?case by simp
next
  case (Cons reg regs)
  obtain ev amt who where reg: "reg = (ev, amt, who)" by (cases reg) auto
  let ?p' = "snd (MakeRisk p ev amt who)"
  have ok': "ids_ok ?p'" using Cons.prems by (rule ids_ok_MakeRisk)
  have risks': "risks ?p' = risks p @ [(tx_counter p, stamp ev (tx_counter p) amt who)]"
    using Cons.prems by (rule ids_ok_MakeRisk_risks)
  have ctr': "tx_counter ?p' = tx_counter p + 1" by (rule MakeRisk_counter)
  have fst_eq: "fst (register_all p ((ev, amt, who) # regs))
                  = tx_counter p # fst (register_all ?p' regs)"
    by (simp add: split_beta Let_def MakeRisk_fst)
  have snd_eq: "snd (register_all p ((ev, amt, who) # regs)) = snd (register_all ?p' regs)"
    by (simp add: split_beta Let_def)
  have ids: "map (\<lambda>n. tx_counter p + 1 + int n) [0..<length regs]
           = map (\<lambda>n. tx_counter p + int n) [Suc 0..<Suc (length regs)]"
    by (simp add: map_Suc_upt[symmetric] del: upt_Suc)
  have rs: "map (\<lambda>(n, ev, amt, who).
                   (tx_counter p + 1 + int n, stamp ev (tx_counter p + 1 + int n) amt who))
                (enumerate 0 regs)
          = map (\<lambda>(n, ev, amt, who).
                   (tx_counter p + int n, stamp ev (tx_counter p + int n) amt who))
                (enumerate (Suc 0) regs)"
    by (simp add: enumerate_Suc_eq[of 0] split_beta add.assoc)
  show ?case
    using Cons.IH[OF ok']
    by (simp add: fst_eq snd_eq ids rs risks' ctr' MakeRisk_fees upt_conv_Cons reg
          del: upt_Suc register_all.simps)
qed

lemma ids_ok_fresh: "ids_ok (Pool_init\<lparr>fees := f\<rparr>)"
  by (simp add: ids_ok_def Pool_init_def)

text \<open>
  C9. \<^verbatim>\<open>MakeRisk\<close> returns the value of the counter, stores the new risk under that
  key and increments the counter. On a pool that starts empty, with any fee rate, a
  run of \<open>n\<close> registrations returns the ids \<open>0, ..., n - 1\<close> in this order; afterwards
  the counter is \<open>n\<close>, the pool holds \<open>n\<close> risks, and the risk under key \<open>i\<close> is the one
  built by the \<open>i\<close>-th registration: no gap, no id used twice.
\<close>

theorem MakeRisk_sequential_ids:
  "fst (MakeRisk q ev amt who) = tx_counter q
   \<and> tx_counter (snd (MakeRisk q ev amt who)) = tx_counter q + 1
   \<and> map_of (risks (snd (MakeRisk q ev amt who))) (tx_counter q)
       = Some (stamp ev (tx_counter q) amt who)
   \<and> fst (register_all (Pool_init\<lparr>fees := f\<rparr>) regs) = map int [0..<length regs]
   \<and> tx_counter (snd (register_all (Pool_init\<lparr>fees := f\<rparr>) regs)) = int (length regs)
   \<and> length (risks (snd (register_all (Pool_init\<lparr>fees := f\<rparr>) regs))) = length regs
   \<and> risks (snd (register_all (Pool_init\<lparr>fees := f\<rparr>) regs))
       = map (\<lambda>(n, ev, amt, who). (int n, stamp ev (int n) amt who)) (enumerate 0 regs)"
proof -
  have init: "tx_counter (Pool_init\<lparr>fees := f\<rparr>) = 0" "risks (Pool_init\<lparr>fees := f\<rparr>) = []"
    by (simp_all add: Pool_init_def)
  show ?thesis
    using register_all_run[OF ids_ok_fresh, of f regs]
    by (simp add: init MakeRisk_fst MakeRisk_counter MakeRisk_stored)
qed

text \<open>
  C8, as stated, fails: \<^verbatim>\<open>MakeRisk\<close> has no check of the amount. Called on the empty
  pool with the amount \<open>-500\<close> it returns the id 0, stores the risk with that amount
  and sets the counter to 1.
\<close>

theorem MakeRisk_negative_amount_counterexample:
  "MakeRisk Pool_init (MutexEvent_make ''default'') (Fin (- 500)) ''barney'' =
     (0, \<lparr>tx_counter = 1, fees = Fin (3 / 100),
          risks = [(0, \<lparr>pool_share = Fin 0, winnings_share = Fin 0, payoff = Fin 0,
                        tx = \<lparr>tx_id = 0, amount = Fin (- 500), client_account = ''barney'',
                              pool_account = ''Pool_Account_Address'', payout = Fin 0\<rparr>,
                        event = ''default''\<rparr>)]\<rparr>)"
  by (simp add: MakeRisk_def Pool_init_def MutexEvent_make_def MutexEvent_init_def
        DefaultTX_init_def PoolAccount_def)

text \<open>
  C8, amended: \<^verbatim>\<open>MakeRisk\<close> never fails and accepts every amount, negative or not
  finite: it increments the counter and stores, under the id it returns, a risk with
  exactly the amount it was given.
\<close>

theorem MakeRisk_accepts_every_amount:
  "tx_counter (snd (MakeRisk p ev amt who)) = tx_counter p + 1
   \<and> map_of (risks (snd (MakeRisk p ev amt who))) (fst (MakeRisk p ev amt who))
       = Some (stamp ev (tx_counter p) amt who)
   \<and> amount (tx (stamp ev (tx_counter p) amt who)) = amt"
  by (simp add: MakeRisk_fst MakeRisk_counter MakeRisk_stored) (simp add: stamp_def)


subsection \<open>Arithmetic of double\<close>

lemma isfinite_iff: "isfinite a \<longleftrightarrow> (\<exists>x. a = Fin x)"
  by (cases a) auto

lemma isfinite_val: "isfinite a \<Longrightarrow> a = Fin (val a)"
  by (cases a) auto

lemma isfinite_dadd [simp]: "isfinite (dadd a b) \<longleftrightarrow> isfinite a \<and> isfinite b"
  by (cases a; cases b) auto

lemma isfinite_dneg [simp]: "isfinite (dneg a) \<longleftrightarrow> isfinite a"
  by (cases a) auto

lemma isfinite_dsub [simp]: "isfinite (dsub a b) \<longleftrightarrow> isfinite a \<and> isfinite b"
  by (simp add: dsub_def)

lemma isfinite_inf_of [simp]: "\<not> isfinite (inf_of s)"
  by (simp add: inf_of_def)

lemma isfinite_dmul [simp]: "isfinite (dmul a b) \<longleftrightarrow> isfinite a \<and> isfinite b"
  by (cases a; cases b) auto

lemma isfinite_dfabs [simp]: "isfinite (dfabs a) \<longleftrightarrow> isfinite a"
  by (cases a) auto

lemma ddiv_zero_not_finite: "\<not> isfinite (ddiv a (Fin 0))"
  by (cases a) auto

lemma dless_not_finite: "\<not> isfinite a \<Longrightarrow> \<not> dless (dfabs a) (Fin c)"
  by (cases a) auto

lemma Close_finite: "Close a b \<Longrightarrow> isfinite a \<and> isfinite b"
proof -
  assume c: "Close a b"
  have "isfinite (dsub a b)"
    using c dless_not_finite[of "dsub a b" "1 / 100"] by (auto simp: Close_def)
  then show ?thesis by simp
qed

lemma Close_Fin: "Close (Fin a) (Fin b) \<longleftrightarrow> \<bar>a - b\<bar> < 1 / 100"
  by (simp add: Close_def dsub_def)

lemma dsub_Fin: "dsub (Fin a) (Fin b) = Fin (a - b)"
  by (simp add: dsub_def)

subsection \<open>Sums\<close>

lemma foldl_dadd_finite:
  "list_all (\<lambda>x. isfinite (f x)) xs \<Longrightarrow>
     foldl (\<lambda>s x. dadd s (f x)) (Fin a) xs = Fin (a + sum_list (map (\<lambda>x. val (f x)) xs))"
proof (induction xs arbitrary: a)
  case Nil
  then show ?case by simp
next
  case (Cons x xs)
  then obtain y where y: "f x = Fin y" by (auto simp: isfinite_iff)
  from Cons show ?case by (simp add: y add.assoc)
qed

lemma foldl_dadd_not_finite:
  "\<not> isfinite s \<Longrightarrow> \<not> isfinite (foldl (\<lambda>s x. dadd s (f x)) s xs)"
  by (induction xs arbitrary: s) auto

lemma foldl_dadd_finite_all:
  "isfinite (foldl (\<lambda>s x. dadd s (f x)) s xs) \<Longrightarrow> isfinite s \<and> list_all (\<lambda>x. isfinite (f x)) xs"
proof (induction xs arbitrary: s)
  case Nil
  then show ?case by simp
next
  case (Cons x xs)
  from Cons.IH[of "dadd s (f x)"] Cons.prems show ?case by simp
qed

lemma total_eq: "total_of f m = foldl (\<lambda>s x. dadd s (f (snd x))) (Fin 0) m"
  by (simp add: total_of_def split_def)

lemma TotalPool_eq: "TotalPool p = total_of (\<lambda>r. amount (tx r)) (risks p)"
  by (simp add: TotalPool_def total_of_def)

lemma TotalWinningAmount_eq:
  "TotalWinningAmount E p level = total_of (\<lambda>r. WinningAmount E r level) (risks p)"
  by (simp add: TotalWinningAmount_def total_of_def)

lemma total_finite:
  "list_all (\<lambda>(k, r). isfinite (f r)) m \<Longrightarrow>
     total_of f m = Fin (sum_list (map (\<lambda>(k, r). val (f r)) m))"
  using foldl_dadd_finite[of "\<lambda>x. f (snd x)" m 0]
  by (simp add: total_eq split_def)

lemma total_finite_all:
  "isfinite (total_of f m) \<Longrightarrow> list_all (\<lambda>(k, r). isfinite (f r)) m"
  using foldl_dadd_finite_all[of "\<lambda>x. f (snd x)" "Fin 0" m]
  by (simp add: total_eq split_def)

subsection \<open>MutexPool::MakeWinningRisks\<close>

lemma map_ok_Cons: "map_ok ((k, v) # m) \<longleftrightarrow> (\<forall>k' \<in> fst ` set m. k < k') \<and> map_ok m"
  by (auto simp: map_ok_def)

lemma MutexPool_loop_eq:
  "map_ok rest \<Longrightarrow> \<forall>k \<in> fst ` set wr. \<forall>k' \<in> fst ` set rest. k < k' \<Longrightarrow>
   MutexPool_loop pv wv level rest (wr, t) =
     (wr @ map (\<lambda>(k, r). (k, MutexPool_winning_risk pv wv r))
              (winners MutexEvent_IsWinner level rest),
      foldl (\<lambda>s x. dadd s (payout (tx (MutexPool_winning_risk pv wv (snd x))))) t
            (winners MutexEvent_IsWinner level rest))"
proof (induction rest arbitrary: wr t)
  case Nil
  then show ?case by (simp add: winners_def)
next
  case (Cons x rest)
  obtain k r where x: "x = (k, r)" by (cases x) auto
  from Cons.prems(1) have ok: "map_ok rest" and lt: "\<forall>k' \<in> fst ` set rest. k < k'"
    by (simp_all add: x map_ok_Cons)
  show ?case
  proof (cases "MutexEvent_IsWinner r level")
    case True
    let ?w = "MutexPool_winning_risk pv wv r"
    have app: "map_set k ?w wr = wr @ [(k, ?w)]"
      using Cons.prems(2) by (intro map_set_append) (auto simp: x)
    have keys: "\<forall>k1 \<in> fst ` set (wr @ [(k, ?w)]). \<forall>k' \<in> fst ` set rest. k1 < k'"
      using Cons.prems(2) lt by (auto simp: x)
    show ?thesis
      using Cons.IH[OF ok keys] True
      by (simp add: x app winners_def Let_def)
  next
    case False
    have keys: "\<forall>k1 \<in> fst ` set wr. \<forall>k' \<in> fst ` set rest. k1 < k'"
      using Cons.prems(2) by (auto simp: x)
    show ?thesis
      using Cons.IH[OF ok keys] False
      by (simp add: x winners_def)
  qed
qed


lemma total_map:
  "total_of f (map (\<lambda>(k, r). (k, g r)) m) = foldl (\<lambda>s x. dadd s (f (g (snd x)))) (Fin 0) m"
  by (simp add: total_eq foldl_map split_def)

lemma MutexPool_MakeWinningRisks_eq:
  assumes "map_ok (risks p)"
  shows "MutexPool_MakeWinningRisks p level =
     (let pv = dmul (TotalPool p) (dsub (Fin 1) (fees p));
          wv = TotalWinningAmount MutexEvent_EVENT p level;
          m = map (\<lambda>(k, r). (k, MutexPool_winning_risk pv wv r))
                  (winners MutexEvent_IsWinner level (risks p))
      in if Close (dadd (total_of (\<lambda>r. payout (tx r)) m) (Fees p)) (TotalPool p) then Inr m
         else Inl AssertionFailed)"
  using MutexPool_loop_eq[OF assms, of "[]" _ _ level "Fin 0"]
  by (simp add: MutexPool_MakeWinningRisks_def Let_def total_map)

lemma MutexPool_winning_risk_simps:
  "payoff (MutexPool_winning_risk pv wv r) = ddiv pv wv"
  "payout (tx (MutexPool_winning_risk pv wv r)) = dmul (amount (tx r)) (ddiv pv wv)"
  "amount (tx (MutexPool_winning_risk pv wv r)) = amount (tx r)"
  "winnings_share (MutexPool_winning_risk pv wv r) = ddiv (amount (tx r)) wv"
  "pool_share (MutexPool_winning_risk pv wv r) = ddiv (amount (tx r)) pv"
  "event (MutexPool_winning_risk pv wv r) = event r"
  by (simp_all add: MutexPool_winning_risk_def Let_def)

lemma map_set_mem: "x \<in> set (map_set k v m) \<Longrightarrow> x = (k, v) \<or> x \<in> set m"
  using set_map_set_subset[of k v m] by auto

lemma MutexPool_loop_mem:
  "(k', w) \<in> set (fst (MutexPool_loop pv wv level rest (wr, t))) \<Longrightarrow>
     (k', w) \<in> set wr
   \<or> (\<exists>r. (k', r) \<in> set rest \<and> MutexEvent_IsWinner r level
           \<and> w = MutexPool_winning_risk pv wv r)"
proof (induction rest arbitrary: wr t)
  case Nil
  then show ?case by simp
next
  case (Cons x rest)
  obtain k r where x: "x = (k, r)" by (cases x) auto
  show ?case
  proof (cases "MutexEvent_IsWinner r level")
    case True
    let ?w = "MutexPool_winning_risk pv wv r"
    from Cons.prems True
    have "(k', w) \<in> set (fst (MutexPool_loop pv wv level rest
                                (map_set k ?w wr, dadd t (payout (tx ?w)))))"
      by (simp add: x Let_def)
    from Cons.IH[OF this]
    consider "(k', w) \<in> set (map_set k ?w wr)"
      | "\<exists>r. (k', r) \<in> set rest \<and> MutexEvent_IsWinner r level
              \<and> w = MutexPool_winning_risk pv wv r"
      by blast
    then show ?thesis
    proof cases
      case 1
      from map_set_mem[OF this] True show ?thesis by (auto simp: x)
    next
      case 2
      then show ?thesis by auto
    qed
  next
    case False
    with Cons.prems have "(k', w) \<in> set (fst (MutexPool_loop pv wv level rest (wr, t)))"
      by (simp add: x)
    from Cons.IH[OF this] show ?thesis by auto
  qed
qed

text \<open>
  C5. Whenever the settlement of a mutex pool returns, every entry of the returned
  mapping carries the same payoff, \<open>total_pool_value / total_win_value\<close> with
  \<open>total_pool_value = TotalPool() * (1 - fees)\<close> and
  \<open>total_win_value = TotalWinningAmount(level)\<close>; its payout is its amount times that
  payoff; and it is a winning risk of the pool, under its key and with its amount.
\<close>

theorem MutexPool_flat_payoff:
  assumes "MutexPool_MakeWinningRisks p level = Inr m" and "(k, r) \<in> set m"
  shows "payoff r = ddiv (dmul (TotalPool p) (dsub (Fin 1) (fees p)))
                         (TotalWinningAmount MutexEvent_EVENT p level)
       \<and> payout (tx r) = dmul (amount (tx r)) (payoff r)
       \<and> (\<exists>r0. (k, r0) \<in> set (risks p) \<and> MutexEvent_IsWinner r0 level
                \<and> amount (tx r0) = amount (tx r))"
proof -
  let ?pv = "dmul (TotalPool p) (dsub (Fin 1) (fees p))"
  let ?wv = "TotalWinningAmount MutexEvent_EVENT p level"
  have "m = fst (MutexPool_loop ?pv ?wv level (risks p) ([], Fin 0))"
    using assms(1)
    by (simp add: MutexPool_MakeWinningRisks_def Let_def split_def split: if_splits)
  then have "\<exists>r0. (k, r0) \<in> set (risks p) \<and> MutexEvent_IsWinner r0 level
                \<and> r = MutexPool_winning_risk ?pv ?wv r0"
    using MutexPool_loop_mem[of k r ?pv ?wv level "risks p" "[]" "Fin 0"] assms(2) by simp
  then obtain r0 where r0: "(k, r0) \<in> set (risks p)" "MutexEvent_IsWinner r0 level"
      "r = MutexPool_winning_risk ?pv ?wv r0"
    by auto
  show ?thesis
    using r0(1,2) by (auto simp: r0(3) MutexPool_winning_risk_simps)
qed


lemma MutexEvent_WinningAmount_alt:
  "MutexEvent_WinningAmount r level =
     (if MutexEvent_IsWinner r level then amount (tx r) else Fin 0)"
  by (auto simp: MutexEvent_WinningAmount_def MutexEvent_IsWinner_def)

lemma LongShortEvent_WinningAmount_alt:
  "LongShortEvent_WinningAmount r level =
     (if LongShortEvent_IsWinner r level then amount (tx r) else Fin 0)"
  by (auto simp: LongShortEvent_WinningAmount_def LongShortEvent_IsWinner_def)

lemma stake_map: "map stake m = map (\<lambda>x. val (amount (tx (snd x)))) m"
  by (simp add: stake_def)

lemma amounts_finite_Fin:
  "list_all (\<lambda>(k, r). isfinite (amount (tx r))) m \<Longrightarrow> x \<in> set m \<Longrightarrow>
     amount (tx (snd x)) = Fin (stake x)"
  by (auto simp: list_all_iff stake_def split_def intro: isfinite_val)

lemma total_amount_finite:
  "list_all (\<lambda>(k, r). isfinite (amount (tx r))) m \<Longrightarrow>
     total_of (\<lambda>r. amount (tx r)) m = Fin (sum_list (map stake m))"
  using total_finite[of "\<lambda>r. amount (tx r)" m]
  by (simp add: stake_map split_def)

lemma total_winning_finite:
  assumes wa: "\<And>r. wa r = (if isw r level then amount (tx r) else Fin 0)"
    and fin: "list_all (\<lambda>(k, r). isfinite (amount (tx r))) m"
  shows "total_of wa m = Fin (sum_list (map stake (winners isw level m)))"
proof -
  have f: "list_all (\<lambda>(k, r). isfinite (wa r)) m"
    using fin by (auto simp: list_all_iff wa)
  have v: "\<And>x. val (wa (snd x)) = (if isw (snd x) level then stake x else 0)"
    by (simp add: wa stake_def)
  show ?thesis
    using total_finite[OF f]
    by (simp add: winners_def split_def v sum_list_map_filter')
qed



subsection \<open>Rounding\<close>

lemma find_upto_first:
  "a \<le> e \<Longrightarrow> e \<le> b \<Longrightarrow> P e \<Longrightarrow> (\<And>i. a \<le> i \<Longrightarrow> i < e \<Longrightarrow> \<not> P i) \<Longrightarrow> find P [a..b] = Some e"
proof (induction a b rule: upto.induct)
  case (1 i j)
  show ?case
  proof (cases "i = e")
    case True
    with 1 show ?thesis by (subst upto.simps) simp
  next
    case False
    with 1 have lt: "i < e" by simp
    with 1 have np: "\<not> P i" by simp
    have "find P [i + 1..j] = Some e"
      using 1 lt by (intro "1.IH") auto
    with 1 lt np show ?thesis by (subst upto.simps) simp
  qed
qed

lemma round_even_nearest:
  assumes "\<bar>q - of_int n\<bar> < 1 / 2 \<or> \<bar>q - of_int n\<bar> = 1 / 2 \<and> even n"
  shows "round_even q = n"
proof (cases "of_int n \<le> q")
  case True
  with assms have "\<lfloor>q\<rfloor> = n" by (intro floor_unique) auto
  with assms True show ?thesis by (auto simp: round_even_def Let_def)
next
  case False
  with assms have f: "\<lfloor>q\<rfloor> = n - 1" by (intro floor_unique) auto
  with assms False show ?thesis by (auto simp: round_even_def Let_def)
qed

text \<open>The double nearest to \<open>x\<close>, given its exponent \<open>e\<close> and its significand \<open>n\<close>.\<close>

lemma round64_nearest:
  assumes lo: "e = - 1022 \<or> 2 powi e \<le> \<bar>x\<bar>" and hi: "\<bar>x\<bar> < 2 powi (e + 1)"
    and range: "- 1022 \<le> e" "e \<le> 1023"
    and near: "\<bar>x / 2 powi (e - 52) - of_int n\<bar> < 1 / 2
               \<or> \<bar>x / 2 powi (e - 52) - of_int n\<bar> = 1 / 2 \<and> even n"
    and fin: "\<bar>of_int n * 2 powi (e - 52)\<bar> < (2::real) powi 1024"
  shows "round64 (Fin x) = Fin (of_int n * 2 powi (e - 52))"
proof -
  have "find (\<lambda>e. \<bar>x\<bar> < 2 powi (e + 1)) [- 1022..1023] = Some e"
  proof (rule find_upto_first[where P = "\<lambda>e. \<bar>x\<bar> < 2 powi (e + 1)", OF range hi])
    fix i :: int assume i: "- 1022 \<le> i" "i < e"
    with lo have l: "2 powi e \<le> \<bar>x\<bar>" by auto
    have "(2::real) powi (i + 1) \<le> 2 powi e"
      using i by (intro power_int_increasing) auto
    with l show "\<not> \<bar>x\<bar> < 2 powi (i + 1)" by simp
  qed
  then show ?thesis
    using fin by (simp add: round64.simps(1) Let_def round_even_nearest[OF near])
qed


text \<open>Some doubles: 1, the double nearest to 1/10, and two ties above \<open>2 ^ 53\<close>, where
  the doubles are the even integers.\<close>

lemma round64_examples:
  "round64 (Fin 1) = Fin 1"
  "round64 (Fin (1 / 10)) = Fin (3602879701896397 / 36028797018963968)"
  "round64 (Fin 9007199254740993) = Fin 9007199254740992"
  "round64 (Fin 9007199254740995) = Fin 9007199254740996"
  using round64_nearest[of 0 1 4503599627370496]
    round64_nearest[of "- 4" "1 / 10" 7205759403792794]
    round64_nearest[of 53 9007199254740993 4503599627370496]
    round64_nearest[of 53 9007199254740995 4503599627370498]
  by (simp_all add: power_int_minus)

subsection \<open>Without rounding, the settlements with rounding are the exact ones\<close>





lemma total_of_rounded_id: "total_of_rounded (\<lambda>x. x) f m = total_of f m"
  by (simp add: total_of_rounded_def total_of_def)










subsection \<open>MutexPool::MakeWinningRisks, with rounding\<close>






subsection \<open>LongShortPool::MakeWinningRisks, with rounding\<close>







subsection \<open>Values of binary64\<close>






















































































subsection \<open>A mutex pool with large stakes, settled in binary64\<close>










subsection \<open>The mutex pool of \<^verbatim>\<open>main\<close>, settled at "default"\<close>

lemma mutex_pool_value:
  "mutex_pool =
     \<lparr>tx_counter = 4, fees = Fin (3 / 100),
      risks =
        [(0, stamp (MutexEvent_make ''default'') 0 (Fin 500) ''barney''),
         (1, stamp (MutexEvent_make ''default'') 1 (Fin 2500) ''barney''),
         (2, stamp (MutexEvent_make ''no_default'') 2 (Fin 10000) ''arnold''),
         (3, stamp (MutexEvent_make ''no_default'') 3 (Fin 5000) ''arnold'')]\<rparr>"
  by (simp add: mutex_pool_def Pool_init_def MakeRisk_def stamp_def Let_def)

lemma mutex_pool_facts:
  "map_ok (risks mutex_pool)"
  "pool_finite mutex_pool"
  "TotalPool mutex_pool = Fin 18000"
  "Fees mutex_pool = Fin 540"
  "TotalWinningAmount MutexEvent_EVENT mutex_pool ''default'' = Fin 3000"
  "fees mutex_pool = Fin (3 / 100)"
  by (simp_all add: mutex_pool_value map_ok_def pool_finite_def TotalPool_def Fees_def
        TotalWinningAmount_def MutexEvent_EVENT_def MutexEvent_WinningAmount_def
        stamp_def MutexEvent_make_def MutexEvent_init_def DefaultTX_init_def)





lemma mutex_pool_settled:
  "MutexPool_MakeWinningRisks mutex_pool ''default'' =
     Inr [(0, MutexPool_winning_risk (Fin 17460) (Fin 3000)
                (stamp (MutexEvent_make ''default'') 0 (Fin 500) ''barney'')),
          (1, MutexPool_winning_risk (Fin 17460) (Fin 3000)
                (stamp (MutexEvent_make ''default'') 1 (Fin 2500) ''barney''))]"
proof -
  have ws: "winners MutexEvent_IsWinner ''default'' (risks mutex_pool) =
              [(0, stamp (MutexEvent_make ''default'') 0 (Fin 500) ''barney''),
               (1, stamp (MutexEvent_make ''default'') 1 (Fin 2500) ''barney'')]"
    by (simp add: mutex_pool_value winners_def MutexEvent_IsWinner_def stamp_def
          MutexEvent_make_def MutexEvent_init_def)
  show ?thesis
    unfolding MutexPool_MakeWinningRisks_eq[OF mutex_pool_facts(1)] Let_def ws
    by (simp add: mutex_pool_facts total_of_def MutexPool_winning_risk_simps stamp_def
          Close_Fin dsub_Fin)
qed

theorem MutexPool_flat_payoff_witness:
  "MutexPool_MakeWinningRisks mutex_pool ''default'' =
     Inr [(0, MutexPool_winning_risk (Fin 17460) (Fin 3000)
                (stamp (MutexEvent_make ''default'') 0 (Fin 500) ''barney'')),
          (1, MutexPool_winning_risk (Fin 17460) (Fin 3000)
                (stamp (MutexEvent_make ''default'') 1 (Fin 2500) ''barney''))]
   \<and> payoff (MutexPool_winning_risk (Fin 17460) (Fin 3000)
                (stamp (MutexEvent_make ''default'') 1 (Fin 2500) ''barney'')) = Fin (582 / 100)
   \<and> payout (tx (MutexPool_winning_risk (Fin 17460) (Fin 3000)
                (stamp (MutexEvent_make ''default'') 1 (Fin 2500) ''barney''))) = Fin 14550"
  using MutexPool_flat_payoff[OF mutex_pool_settled, of 1
          "MutexPool_winning_risk (Fin 17460) (Fin 3000)
             (stamp (MutexEvent_make ''default'') 1 (Fin 2500) ''barney'')"]
  by (simp add: mutex_pool_settled mutex_pool_facts dsub_Fin MutexPool_winning_risk_simps
        stamp_def)

subsection \<open>LongShortPool::MakeWinningRisks\<close>

lemma LongShortPool_winning_risk_simps:
  "prima_facie_payoff (LongShortPool_winning_risk pv wv level r) = ddiv pv wv"
  "prima_facie_payout (LongShortPool_winning_risk pv wv level r)
     = dmul (amount (tx r)) (ddiv pv wv)"
  "inverse_distance_to_the_pin (LongShortPool_winning_risk pv wv level r)
     = WinningInverseDistance r level"
  "winnings_share (LongShortPool_winning_risk pv wv level r) = ddiv (amount (tx r)) wv"
  "pool_share (LongShortPool_winning_risk pv wv level r) = ddiv (amount (tx r)) pv"
  "tx (LongShortPool_winning_risk pv wv level r) = tx r"
  "side (LongShortPool_winning_risk pv wv level r) = side r"
  "price (LongShortPool_winning_risk pv wv level r) = price r"
  by (simp_all add: LongShortPool_winning_risk_def Let_def)

lemma LongShortPool_reweight_simps:
  "inverse_distance_to_pin_normalised (LongShortPool_reweight tid wv w)
     = ddiv (inverse_distance_to_the_pin w) tid"
  "adjusted_amount (LongShortPool_reweight tid wv w)
     = dmul (ddiv (inverse_distance_to_the_pin w) tid) wv"
  "payout (tx (LongShortPool_reweight tid wv w))
     = dmul (dmul (ddiv (inverse_distance_to_the_pin w) tid) wv) (prima_facie_payoff w)"
  "payoff (LongShortPool_reweight tid wv w)
     = ddiv (dmul (dmul (ddiv (inverse_distance_to_the_pin w) tid) wv) (prima_facie_payoff w))
            (amount (tx w))"
  "amount (tx (LongShortPool_reweight tid wv w)) = amount (tx w)"
  "prima_facie_payout (LongShortPool_reweight tid wv w) = prima_facie_payout w"
  "prima_facie_payoff (LongShortPool_reweight tid wv w) = prima_facie_payoff w"
  "inverse_distance_to_the_pin (LongShortPool_reweight tid wv w) = inverse_distance_to_the_pin w"
  "winnings_share (LongShortPool_reweight tid wv w) = winnings_share w"
  "side (LongShortPool_reweight tid wv w) = side w"
  "price (LongShortPool_reweight tid wv w) = price w"
  by (simp_all add: LongShortPool_reweight_def Let_def)

lemma LongShortPool_loop1_eq:
  "map_ok rest \<Longrightarrow> \<forall>k \<in> fst ` set wr. \<forall>k' \<in> fst ` set rest. k < k' \<Longrightarrow>
   LongShortPool_loop1 pv wv level rest (wr, d, t) =
     (wr @ map (\<lambda>(k, r). (k, LongShortPool_winning_risk pv wv level r))
              (winners LongShortEvent_IsWinner level rest),
      foldl (\<lambda>s x. dadd s (WinningInverseDistance (snd x) level)) d
            (winners LongShortEvent_IsWinner level rest),
      foldl (\<lambda>s x. dadd s (dmul (amount (tx (snd x))) (ddiv pv wv))) t
            (winners LongShortEvent_IsWinner level rest))"
proof (induction rest arbitrary: wr d t)
  case Nil
  then show ?case by (simp add: winners_def)
next
  case (Cons x rest)
  obtain k r where x: "x = (k, r)" by (cases x) auto
  from Cons.prems(1) have ok: "map_ok rest" and lt: "\<forall>k' \<in> fst ` set rest. k < k'"
    by (simp_all add: x map_ok_Cons)
  show ?case
  proof (cases "LongShortEvent_IsWinner r level")
    case True
    let ?w = "LongShortPool_winning_risk pv wv level r"
    have app: "map_set k ?w wr = wr @ [(k, ?w)]"
      using Cons.prems(2) by (intro map_set_append) (auto simp: x)
    have keys: "\<forall>k1 \<in> fst ` set (wr @ [(k, ?w)]). \<forall>k' \<in> fst ` set rest. k1 < k'"
      using Cons.prems(2) lt by (auto simp: x)
    show ?thesis
      using Cons.IH[OF ok keys] True
      by (simp add: x app winners_def Let_def LongShortPool_winning_risk_simps)
  next
    case False
    have keys: "\<forall>k1 \<in> fst ` set wr. \<forall>k' \<in> fst ` set rest. k1 < k'"
      using Cons.prems(2) by (auto simp: x)
    show ?thesis
      using Cons.IH[OF ok keys] False
      by (simp add: x winners_def)
  qed
qed

lemma LongShortPool_loop2_eq:
  "LongShortPool_loop2 tid wv wr t =
     (map (\<lambda>(k, w). (k, LongShortPool_reweight tid wv w)) wr,
      foldl (\<lambda>s x. dadd s (payout (tx (LongShortPool_reweight tid wv (snd x))))) t wr)"
  by (induction wr arbitrary: t) (auto simp: Let_def)

lemma LongShortPool_MakeWinningRisks_eq:
  assumes "map_ok (risks p)"
  shows "LongShortPool_MakeWinningRisks p level =
     (let pv = dmul (TotalPool p) (dsub (Fin 1) (fees p));
          wv = TotalWinningAmount LongShortEvent_EVENT p level;
          ws = winners LongShortEvent_IsWinner level (risks p);
          tid = foldl (\<lambda>s x. dadd s (WinningInverseDistance (snd x) level)) (Fin 0) ws;
          m = map (\<lambda>(k, r). (k, LongShortPool_settled pv wv tid level r)) ws
      in if \<not> Close (dadd (total_of prima_facie_payout m) (Fees p)) (TotalPool p)
           then Inl AssertionFailed
         else if \<not> Close (total_of prima_facie_payout m) (total_of (\<lambda>r. payout (tx r)) m)
           then Inl AssertionFailed
         else Inr m)"
proof -
  let ?pv = "dmul (TotalPool p) (dsub (Fin 1) (fees p))"
  let ?wv = "TotalWinningAmount LongShortEvent_EVENT p level"
  let ?ws = "winners LongShortEvent_IsWinner level (risks p)"
  let ?tid = "foldl (\<lambda>s x. dadd s (WinningInverseDistance (snd x) level)) (Fin 0) ?ws"
  let ?m1 = "map (\<lambda>(k, r). (k, LongShortPool_winning_risk ?pv ?wv level r)) ?ws"
  let ?m = "map (\<lambda>(k, r). (k, LongShortPool_settled ?pv ?wv ?tid level r)) ?ws"
  let ?tpf = "foldl (\<lambda>s x. dadd s (dmul (amount (tx (snd x))) (ddiv ?pv ?wv))) (Fin 0) ?ws"
  have l1: "LongShortPool_loop1 ?pv ?wv level (risks p) ([], Fin 0, Fin 0) = (?m1, ?tid, ?tpf)"
    using LongShortPool_loop1_eq[OF assms, of "[]" ?pv ?wv level "Fin 0" "Fin 0"] by simp
  have m: "map (\<lambda>(k, w). (k, LongShortPool_reweight ?tid ?wv w)) ?m1 = ?m"
    by (simp add: LongShortPool_settled_def split_def)
  have l2: "LongShortPool_loop2 ?tid ?wv ?m1 (Fin 0) = (?m, total_of (\<lambda>r. payout (tx r)) ?m)"
    unfolding LongShortPool_loop2_eq m
    by (simp add: total_eq LongShortPool_settled_def foldl_map split_def)
  have tpf: "?tpf = total_of prima_facie_payout ?m"
    by (simp add: total_eq foldl_map split_def LongShortPool_settled_def
          LongShortPool_reweight_simps LongShortPool_winning_risk_simps)
  show ?thesis
    unfolding LongShortPool_MakeWinningRisks_def Let_def l1 prod.case l2 tpf[symmetric]
    by simp
qed


lemma foldl_dadd_Fin:
  "(\<And>x. x \<in> set xs \<Longrightarrow> F x = Fin (h x)) \<Longrightarrow>
     foldl (\<lambda>s x. dadd s (F x)) (Fin a) xs = Fin (a + sum_list (map h xs))"
  by (induction xs arbitrary: a) (simp_all add: add.assoc)

lemma total_of_map_Fin:
  assumes "\<And>x. x \<in> set ws \<Longrightarrow> f (g (snd x)) = Fin (h x)"
  shows "total_of f (map (\<lambda>(k, r). (k, g r)) ws) = Fin (sum_list (map h ws))"
  using foldl_dadd_Fin[of ws "\<lambda>x. f (g (snd x))" h 0] assms
  by (simp add: total_map)

lemma winner_distance_pos:
  "LongShortEvent_IsWinner r c \<Longrightarrow> 0 < distance_to_pin r c"
  by (auto simp: LongShortEvent_IsWinner_def distance_to_pin_def split: if_splits)

lemma winner_inverse_distance:
  "LongShortEvent_IsWinner r c \<Longrightarrow>
     WinningInverseDistance r c = Fin (1 / of_int (distance_to_pin r c))"
  by (auto simp: LongShortEvent_IsWinner_def WinningInverseDistance_def distance_to_pin_def
           split: if_splits)

lemma winners_mem:
  "x \<in> set (winners isw level m) \<longleftrightarrow> x \<in> set m \<and> isw (snd x) level"
  by (auto simp: winners_def)

lemma inv_distance_pos:
  "x \<in> set (winners LongShortEvent_IsWinner c m) \<Longrightarrow> 0 < inv_distance c x"
  using winner_distance_pos[of "snd x" c] by (simp add: winners_mem inv_distance_def)

lemma sum_inv_distance_pos:
  assumes "winners LongShortEvent_IsWinner c m \<noteq> []"
  shows "0 < sum_list (map (inv_distance c) (winners LongShortEvent_IsWinner c m))"
proof -
  have "\<And>ws. ws \<noteq> [] \<Longrightarrow> (\<forall>x \<in> set ws. 0 < inv_distance c x) \<Longrightarrow>
          0 < sum_list (map (inv_distance c) ws)"
  proof -
    fix ws :: "(TxId \<times> LongShortEvent) list"
    show "ws \<noteq> [] \<Longrightarrow> (\<forall>x \<in> set ws. 0 < inv_distance c x) \<Longrightarrow>
            0 < sum_list (map (inv_distance c) ws)"
    proof (induction ws)
      case Nil
      then show ?case by simp
    next
      case (Cons x ws)
      then show ?case by (cases ws) (auto intro: add_pos_pos)
    qed
  qed
  then show ?thesis using assms inv_distance_pos by blast
qed

lemma total_inverse_distance:
  "foldl (\<lambda>s x. dadd s (WinningInverseDistance (snd x) c)) (Fin 0)
         (winners LongShortEvent_IsWinner c m)
     = Fin (sum_list (map (inv_distance c) (winners LongShortEvent_IsWinner c m)))"
  using foldl_dadd_Fin[of "winners LongShortEvent_IsWinner c m"
          "\<lambda>x. WinningInverseDistance (snd x) c" "inv_distance c" 0]
  by (simp add: winners_mem winner_inverse_distance inv_distance_def)

lemma LongShortPool_settled_exact:
  assumes "LongShortEvent_IsWinner r c" "amount (tx r) = Fin a" "W \<noteq> 0" "D \<noteq> 0"
  shows "prima_facie_payout (LongShortPool_settled (Fin P) (Fin W) (Fin D) c r)
           = Fin (a * (P / W))"
    and "payout (tx (LongShortPool_settled (Fin P) (Fin W) (Fin D) c r))
           = Fin (1 / of_int (distance_to_pin r c) / D * W * (P / W))"
    and "inverse_distance_to_pin_normalised (LongShortPool_settled (Fin P) (Fin W) (Fin D) c r)
           = Fin (1 / of_int (distance_to_pin r c) / D)"
    and "winnings_share (LongShortPool_settled (Fin P) (Fin W) (Fin D) c r) = Fin (a / W)"
    and "payoff (LongShortPool_settled (Fin P) (Fin W) (Fin D) c r)
           = ddiv (Fin (1 / of_int (distance_to_pin r c) / D * W * (P / W))) (Fin a)"
  using assms
  by (simp_all add: LongShortPool_settled_def LongShortPool_reweight_simps
        LongShortPool_winning_risk_simps winner_inverse_distance)


lemma pool_finite_totals:
  assumes "pool_finite p"
  shows "fees p = Fin (val (fees p))"
    and "list_all (\<lambda>(k, r). isfinite (amount (tx r))) (risks p)"
    and "TotalPool p = Fin (sum_list (map stake (risks p)))"
    and "Fees p = Fin (sum_list (map stake (risks p)) * val (fees p))"
    and "dmul (TotalPool p) (dsub (Fin 1) (fees p))
           = Fin (sum_list (map stake (risks p)) * (1 - val (fees p)))"
proof -
  show f: "fees p = Fin (val (fees p))"
    using assms by (simp add: pool_finite_def isfinite_val)
  show fin: "list_all (\<lambda>(k, r). isfinite (amount (tx r))) (risks p)"
    using assms by (simp add: pool_finite_def)
  show tp: "TotalPool p = Fin (sum_list (map stake (risks p)))"
    by (simp add: TotalPool_eq total_amount_finite[OF fin])
  show "Fees p = Fin (sum_list (map stake (risks p)) * val (fees p))"
    unfolding Fees_def tp by (subst f) simp
  show "dmul (TotalPool p) (dsub (Fin 1) (fees p))
           = Fin (sum_list (map stake (risks p)) * (1 - val (fees p)))"
    unfolding tp by (subst f) (simp add: dsub_Fin)
qed

lemma LongShortPool_exact:
  fixes p :: "LongShortEvent Pool" and c :: int
  defines "ws \<equiv> winners LongShortEvent_IsWinner c (risks p)"
  defines "P \<equiv> sum_list (map stake (risks p)) * (1 - val (fees p))"
  defines "W \<equiv> sum_list (map stake ws)"
  defines "D \<equiv> sum_list (map (inv_distance c) ws)"
  defines "m \<equiv> map (\<lambda>(k, r). (k, LongShortPool_settled (Fin P) (Fin W) (Fin D) c r)) ws"
  assumes ok: "map_ok (risks p)" and fin: "pool_finite p"
    and nz: "TotalWinningAmount LongShortEvent_EVENT p c \<noteq> Fin 0"
  shows "TotalWinningAmount LongShortEvent_EVENT p c = Fin W"
    and "W \<noteq> 0" and "0 < D" and "ws \<noteq> []"
    and "total_of prima_facie_payout m = Fin P"
    and "total_of (\<lambda>r. payout (tx r)) m = Fin P"
    and "dadd (Fin P) (Fees p) = TotalPool p"
    and "LongShortPool_MakeWinningRisks p c = Inr m"
proof -
  note pf = pool_finite_totals[OF fin]
  show wv: "TotalWinningAmount LongShortEvent_EVENT p c = Fin W"
    unfolding TotalWinningAmount_eq W_def ws_def
    by (rule total_winning_finite[OF _ pf(2)])
       (simp add: LongShortEvent_EVENT_def LongShortEvent_WinningAmount_alt)
  with nz show W0: "W \<noteq> 0" by simp
  then show ne: "ws \<noteq> []" by (auto simp: W_def)
  then show D0: "0 < D" unfolding D_def ws_def by (rule sum_inv_distance_pos)
  have amt: "\<And>x. x \<in> set ws \<Longrightarrow> amount (tx (snd x)) = Fin (stake x)"
    unfolding ws_def by (rule amounts_finite_Fin[OF pf(2)]) (simp add: winners_mem)
  have win: "\<And>x. x \<in> set ws \<Longrightarrow> LongShortEvent_IsWinner (snd x) c"
    by (simp add: ws_def winners_mem)
  have "total_of prima_facie_payout m = Fin (sum_list (map (\<lambda>x. stake x * (P / W)) ws))"
    unfolding m_def
    by (rule total_of_map_Fin)
       (use W0 D0 in \<open>simp add: LongShortPool_settled_exact(1)[OF win amt]\<close>)
  also have "sum_list (map (\<lambda>x. stake x * (P / W)) ws) = W * (P / W)"
    by (simp only: sum_list_mult_const W_def)
  also have "W * (P / W) = P" using W0 by simp
  finally show tpf: "total_of prima_facie_payout m = Fin P" .
  have "total_of (\<lambda>r. payout (tx r)) m
          = Fin (sum_list (map (\<lambda>x. inv_distance c x * (W * (P / W) / D)) ws))"
    unfolding m_def
    by (rule total_of_map_Fin)
       (use W0 D0 in \<open>simp add: LongShortPool_settled_exact(2)[OF win amt] inv_distance_def\<close>)
  also have "sum_list (map (\<lambda>x. inv_distance c x * (W * (P / W) / D)) ws)
               = D * (W * (P / W) / D)"
    by (simp only: sum_list_mult_const D_def)
  also have "D * (W * (P / W) / D) = P" using W0 D0 by simp
  finally show tp: "total_of (\<lambda>r. payout (tx r)) m = Fin P" .
  show sum: "dadd (Fin P) (Fees p) = TotalPool p"
    unfolding pf(3,4) P_def by (simp add: algebra_simps)
  have tid: "foldl (\<lambda>s x. dadd s (WinningInverseDistance (snd x) c)) (Fin 0)
               (winners LongShortEvent_IsWinner c (risks p)) = Fin D"
    unfolding D_def ws_def by (rule total_inverse_distance)
  have "LongShortPool_MakeWinningRisks p c =
          (if \<not> Close (dadd (total_of prima_facie_payout m) (Fees p)) (TotalPool p)
             then Inl AssertionFailed
           else if \<not> Close (total_of prima_facie_payout m) (total_of (\<lambda>r. payout (tx r)) m)
             then Inl AssertionFailed
           else Inr m)"
    unfolding LongShortPool_MakeWinningRisks_eq[OF ok] Let_def pf(5) wv tid
      m_def ws_def P_def ..
  then show "LongShortPool_MakeWinningRisks p c = Inr m"
    unfolding tpf tp sum by (simp add: pf(3) Close_Fin)
qed


subsection \<open>Long/short pools whose settlement fails\<close>









subsection \<open>The long/short pool of \<^verbatim>\<open>main\<close>, settled at 56\<close>

lemma ls_pool_value:
  "ls_pool u =
     \<lparr>tx_counter = 7, fees = Fin (3 / 100),
      risks =
        [(0, stamp (LongShortEvent_make Long 50 u) 0 (Fin 500) ''barney''),
         (1, stamp (LongShortEvent_make Long 55 u) 1 (Fin 250) ''barney''),
         (2, stamp (LongShortEvent_make Long 60 u) 2 (Fin 1000) ''barney''),
         (3, stamp (LongShortEvent_make Short 60 u) 3 (Fin 700) ''arnold''),
         (4, stamp (LongShortEvent_make Short 55 u) 4 (Fin 900) ''arnold''),
         (5, stamp (LongShortEvent_make Short 50 u) 5 (Fin 1000) ''arnold''),
         (6, stamp (LongShortEvent_make Short 40 u) 6 (Fin 1500) ''arnold'')]\<rparr>"
  by (simp add: ls_pool_def Pool_init_def MakeRisk_def stamp_def Let_def)

lemma ls_pool_facts:
  "map_ok (risks (ls_pool u))"
  "pool_finite (ls_pool u)"
  "TotalPool (ls_pool u) = Fin 5850"
  "Fees (ls_pool u) = Fin (1755 / 10)"
  "TotalWinningAmount LongShortEvent_EVENT (ls_pool u) 56 = Fin 1450"
  "fees (ls_pool u) = Fin (3 / 100)"
  by (simp_all add: ls_pool_value map_ok_def pool_finite_def TotalPool_def Fees_def
        TotalWinningAmount_def LongShortEvent_EVENT_def LongShortEvent_WinningAmount_def
        stamp_def LongShortEvent_make_def LongShortEvent_init_def DefaultTX_init_def)




subsection \<open>Settlement at a level with total winning amount zero\<close>

lemma total_of_not_finite:
  "x \<in> set m \<Longrightarrow> \<not> isfinite (f (snd x)) \<Longrightarrow> \<not> isfinite (total_of f m)"
  using total_finite_all[of f m] by (auto simp: list_all_iff split_def)

lemma not_Close_left: "\<not> isfinite a \<Longrightarrow> \<not> Close a b"
  using Close_finite by blast

lemma total_of_Nil: "total_of f [] = Fin 0"
  by (simp add: total_of_def)

lemma MutexPool_zero_win:
  assumes ok: "map_ok (risks p)"
    and z: "TotalWinningAmount MutexEvent_EVENT p level = Fin 0"
  shows "MutexPool_MakeWinningRisks p level =
           (if winners MutexEvent_IsWinner level (risks p) = []
               \<and> Close (dadd (Fin 0) (Fees p)) (TotalPool p)
            then Inr [] else Inl AssertionFailed)"
proof (cases "winners MutexEvent_IsWinner level (risks p)")
  case Nil
  then show ?thesis
    unfolding MutexPool_MakeWinningRisks_eq[OF ok] by (simp add: Let_def total_of_Nil)
next
  case (Cons x ws)
  let ?pv = "dmul (TotalPool p) (dsub (Fin 1) (fees p))"
  let ?m = "map (\<lambda>(k, r). (k, MutexPool_winning_risk ?pv (Fin 0) r))
                (winners MutexEvent_IsWinner level (risks p))"
  have mem: "(fst x, MutexPool_winning_risk ?pv (Fin 0) (snd x)) \<in> set ?m"
    by (simp add: Cons split_def)
  have "\<not> isfinite (payout (tx (MutexPool_winning_risk ?pv (Fin 0) (snd x))))"
    by (simp add: MutexPool_winning_risk_simps ddiv_zero_not_finite)
  then have "\<not> isfinite (total_of (\<lambda>r. payout (tx r)) ?m)"
    using total_of_not_finite[OF mem, of "\<lambda>r. payout (tx r)"] by simp
  then have "\<not> Close (dadd (total_of (\<lambda>r. payout (tx r)) ?m) (Fees p)) (TotalPool p)"
    by (intro not_Close_left) simp
  then show ?thesis
    unfolding MutexPool_MakeWinningRisks_eq[OF ok] Let_def z by (simp add: Cons)
qed

lemma LongShortPool_zero_win:
  assumes ok: "map_ok (risks p)"
    and z: "TotalWinningAmount LongShortEvent_EVENT p level = Fin 0"
  shows "LongShortPool_MakeWinningRisks p level =
           (if winners LongShortEvent_IsWinner level (risks p) = []
               \<and> Close (dadd (Fin 0) (Fees p)) (TotalPool p)
            then Inr [] else Inl AssertionFailed)"
proof (cases "winners LongShortEvent_IsWinner level (risks p)")
  case Nil
  then show ?thesis
    unfolding LongShortPool_MakeWinningRisks_eq[OF ok]
    by (simp add: Let_def total_of_Nil Close_Fin)
next
  case (Cons x ws)
  let ?pv = "dmul (TotalPool p) (dsub (Fin 1) (fees p))"
  let ?tid = "foldl (\<lambda>s x. dadd s (WinningInverseDistance (snd x) level)) (Fin 0)
                (winners LongShortEvent_IsWinner level (risks p))"
  let ?m = "map (\<lambda>(k, r). (k, LongShortPool_settled ?pv (Fin 0) ?tid level r))
                (winners LongShortEvent_IsWinner level (risks p))"
  have mem: "(fst x, LongShortPool_settled ?pv (Fin 0) ?tid level (snd x)) \<in> set ?m"
    by (simp add: Cons split_def)
  have "\<not> isfinite (prima_facie_payout (LongShortPool_settled ?pv (Fin 0) ?tid level (snd x)))"
    by (simp add: LongShortPool_settled_def LongShortPool_reweight_simps
          LongShortPool_winning_risk_simps ddiv_zero_not_finite)
  then have "\<not> isfinite (total_of prima_facie_payout ?m)"
    using total_of_not_finite[OF mem, of prima_facie_payout] by simp
  then have "\<not> Close (dadd (total_of prima_facie_payout ?m) (Fees p)) (TotalPool p)"
    by (intro not_Close_left) simp
  then show ?thesis
    unfolding LongShortPool_MakeWinningRisks_eq[OF ok] Let_def z by (simp add: Cons)
qed


lemma cent_pool_value:
  "cent_pool =
     \<lparr>tx_counter = 1, fees = Fin (3 / 100),
      risks = [(0, stamp (MutexEvent_make ''default'') 0 (Fin (1 / 100)) ''barney'')]\<rparr>"
  by (simp add: cent_pool_def Pool_init_def MakeRisk_def stamp_def Let_def)

lemma cent_pool_facts:
  "map_ok (risks cent_pool)"
  "TotalPool cent_pool = Fin (1 / 100)"
  "Fees cent_pool = Fin (3 / 10000)"
  "TotalWinningAmount MutexEvent_EVENT cent_pool ''no_default'' = Fin 0"
  "winners MutexEvent_IsWinner ''no_default'' (risks cent_pool) = []"
  by (simp_all add: cent_pool_value map_ok_def TotalPool_def Fees_def winners_def
        TotalWinningAmount_def MutexEvent_EVENT_def MutexEvent_WinningAmount_def
        MutexEvent_IsWinner_def
        stamp_def MutexEvent_make_def MutexEvent_init_def DefaultTX_init_def)

lemma mutex_pool_nobody:
  "TotalWinningAmount MutexEvent_EVENT mutex_pool ''nobody'' = Fin 0"
  "winners MutexEvent_IsWinner ''nobody'' (risks mutex_pool) = []"
  by (simp_all add: mutex_pool_value winners_def
        TotalWinningAmount_def MutexEvent_EVENT_def MutexEvent_WinningAmount_def
        MutexEvent_IsWinner_def
        stamp_def MutexEvent_make_def MutexEvent_init_def DefaultTX_init_def)

lemma empty_pool_facts:
  "map_ok (risks Pool_init)"
  "TotalPool Pool_init = Fin 0"
  "Fees Pool_init = Fin 0"
  "TotalWinningAmount E Pool_init level = Fin 0"
  "winners isw level (risks Pool_init) = []"
  by (simp_all add: Pool_init_def map_ok_def TotalPool_def Fees_def winners_def
        TotalWinningAmount_def)

text \<open>
  C3, as stated, fails: the source has no \<open>NoWinningStake\<close> error, and a settlement at
  a level with total winning amount zero can return. The pool with a single stake of
  one cent on "default", settled at "no_default", returns the empty mapping, and so
  does the empty pool.
\<close>

theorem zero_winning_amount_counterexample:
  "TotalWinningAmount MutexEvent_EVENT cent_pool ''no_default'' = Fin 0
   \<and> MutexPool_MakeWinningRisks cent_pool ''no_default'' = Inr []
   \<and> TotalWinningAmount MutexEvent_EVENT Pool_init ''default'' = Fin 0
   \<and> MutexPool_MakeWinningRisks Pool_init ''default'' = Inr []"
  by (simp add: MutexPool_zero_win cent_pool_facts empty_pool_facts Close_Fin)

text \<open>
  C3, amended. At a level where the total winning amount is zero, a settlement (of
  either pool) has two outcomes only: it returns the empty mapping, when no risk wins at
  that level and the fees are within 0.01 of the total pool; otherwise the conservation
  assertion fails. No mapping with an entry is returned, hence no payoff or payout that
  is NaN or infinite.
\<close>

theorem zero_winning_amount:
  "(map_ok (risks p) \<and> TotalWinningAmount MutexEvent_EVENT p level = Fin 0 \<longrightarrow>
      MutexPool_MakeWinningRisks p level =
        (if winners MutexEvent_IsWinner level (risks p) = []
            \<and> Close (dadd (Fin 0) (Fees p)) (TotalPool p)
         then Inr [] else Inl AssertionFailed))
   \<and> (map_ok (risks q) \<and> TotalWinningAmount LongShortEvent_EVENT q c = Fin 0 \<longrightarrow>
      LongShortPool_MakeWinningRisks q c =
        (if winners LongShortEvent_IsWinner c (risks q) = []
            \<and> Close (dadd (Fin 0) (Fees q)) (TotalPool q)
         then Inr [] else Inl AssertionFailed))"
  using MutexPool_zero_win[of p level] LongShortPool_zero_win[of q c] by blast

theorem zero_winning_amount_witness:
  "map_ok (risks mutex_pool)
   \<and> TotalWinningAmount MutexEvent_EVENT mutex_pool ''nobody'' = Fin 0
   \<and> MutexPool_MakeWinningRisks mutex_pool ''nobody'' = Inl AssertionFailed
   \<and> map_ok (risks (Pool_init :: LongShortEvent Pool))
   \<and> TotalWinningAmount LongShortEvent_EVENT Pool_init 56 = Fin 0
   \<and> LongShortPool_MakeWinningRisks Pool_init 56 = Inr []"
  using zero_winning_amount[of mutex_pool "''nobody''" Pool_init 56]
  by (simp add: mutex_pool_facts mutex_pool_nobody empty_pool_facts Close_Fin)

subsection \<open>Exact settlement of a mutex pool\<close>

lemma sum_list_pos_nonempty:
  "xs \<noteq> [] \<Longrightarrow> (\<And>x. x \<in> set xs \<Longrightarrow> 0 < h x) \<Longrightarrow> 0 < sum_list (map h xs :: real list)"
proof (induction xs)
  case Nil
  then show ?case by simp
next
  case (Cons x xs)
  then show ?case by (cases xs) (auto intro: add_pos_pos)
qed

lemma sum_list_nonneg_real:
  "(\<And>x. x \<in> set xs \<Longrightarrow> 0 \<le> h x) \<Longrightarrow> 0 \<le> sum_list (map h xs :: real list)"
  by (induction xs) auto

lemma MutexPool_exact:
  fixes p :: "MutexEvent Pool" and level :: string
  defines "ws \<equiv> winners MutexEvent_IsWinner level (risks p)"
  defines "P \<equiv> sum_list (map stake (risks p)) * (1 - val (fees p))"
  defines "W \<equiv> sum_list (map stake ws)"
  defines "m \<equiv> map (\<lambda>(k, r). (k, MutexPool_winning_risk (Fin P) (Fin W) r)) ws"
  assumes ok: "map_ok (risks p)" and fin: "pool_finite p"
    and nz: "TotalWinningAmount MutexEvent_EVENT p level \<noteq> Fin 0"
  shows "TotalWinningAmount MutexEvent_EVENT p level = Fin W"
    and "W \<noteq> 0" and "ws \<noteq> []"
    and "total_of (\<lambda>r. payout (tx r)) m = Fin P"
    and "total_of winnings_share m = Fin 1"
    and "dadd (Fin P) (Fees p) = TotalPool p"
    and "MutexPool_MakeWinningRisks p level = Inr m"
proof -
  note pf = pool_finite_totals[OF fin]
  show wv: "TotalWinningAmount MutexEvent_EVENT p level = Fin W"
    unfolding TotalWinningAmount_eq W_def ws_def
    by (rule total_winning_finite[OF _ pf(2)])
       (simp add: MutexEvent_EVENT_def MutexEvent_WinningAmount_alt)
  with nz show W0: "W \<noteq> 0" by simp
  then show ne: "ws \<noteq> []" by (auto simp: W_def)
  have amt: "\<And>x. x \<in> set ws \<Longrightarrow> amount (tx (snd x)) = Fin (stake x)"
    unfolding ws_def by (rule amounts_finite_Fin[OF pf(2)]) (simp add: winners_mem)
  have "total_of (\<lambda>r. payout (tx r)) m = Fin (sum_list (map (\<lambda>x. stake x * (P / W)) ws))"
    unfolding m_def
    by (rule total_of_map_Fin) (use W0 in \<open>simp add: MutexPool_winning_risk_simps amt\<close>)
  also have "sum_list (map (\<lambda>x. stake x * (P / W)) ws) = W * (P / W)"
    by (simp only: sum_list_mult_const W_def)
  also have "W * (P / W) = P" using W0 by simp
  finally show tp: "total_of (\<lambda>r. payout (tx r)) m = Fin P" .
  have "total_of winnings_share m = Fin (sum_list (map (\<lambda>x. stake x * (1 / W)) ws))"
    unfolding m_def
    by (rule total_of_map_Fin) (use W0 in \<open>simp add: MutexPool_winning_risk_simps amt\<close>)
  also have "sum_list (map (\<lambda>x. stake x * (1 / W)) ws) = W * (1 / W)"
    by (simp only: sum_list_mult_const W_def)
  also have "W * (1 / W) = 1" using W0 by simp
  finally show "total_of winnings_share m = Fin 1" .
  show sum: "dadd (Fin P) (Fees p) = TotalPool p"
    unfolding pf(3,4) P_def by (simp add: algebra_simps)
  have "MutexPool_MakeWinningRisks p level =
          (if Close (dadd (total_of (\<lambda>r. payout (tx r)) m) (Fees p)) (TotalPool p)
           then Inr m else Inl AssertionFailed)"
    unfolding MutexPool_MakeWinningRisks_eq[OF ok] Let_def pf(5) wv m_def ws_def P_def ..
  then show "MutexPool_MakeWinningRisks p level = Inr m"
    unfolding tp sum by (simp add: pf(3) Close_Fin)
qed

lemma LongShortPool_exact_shares:
  fixes p :: "LongShortEvent Pool" and c :: int
  defines "ws \<equiv> winners LongShortEvent_IsWinner c (risks p)"
  defines "P \<equiv> sum_list (map stake (risks p)) * (1 - val (fees p))"
  defines "W \<equiv> sum_list (map stake ws)"
  defines "D \<equiv> sum_list (map (inv_distance c) ws)"
  defines "m \<equiv> map (\<lambda>(k, r). (k, LongShortPool_settled (Fin P) (Fin W) (Fin D) c r)) ws"
  assumes ok: "map_ok (risks p)" and fin: "pool_finite p"
    and nz: "TotalWinningAmount LongShortEvent_EVENT p c \<noteq> Fin 0"
  shows "total_of winnings_share m = Fin 1"
    and "total_of inverse_distance_to_pin_normalised m = Fin 1"
proof -
  note pf = pool_finite_totals[OF fin]
  note ex = LongShortPool_exact[OF ok fin nz, folded ws_def, folded P_def W_def D_def]
  have W0: "W \<noteq> 0" and D0: "0 < D" by (rule ex(2), rule ex(3))
  have amt: "\<And>x. x \<in> set ws \<Longrightarrow> amount (tx (snd x)) = Fin (stake x)"
    unfolding ws_def by (rule amounts_finite_Fin[OF pf(2)]) (simp add: winners_mem)
  have win: "\<And>x. x \<in> set ws \<Longrightarrow> LongShortEvent_IsWinner (snd x) c"
    by (simp add: ws_def winners_mem)
  have "total_of winnings_share m = Fin (sum_list (map (\<lambda>x. stake x * (1 / W)) ws))"
    unfolding m_def
    by (rule total_of_map_Fin)
       (use W0 D0 in \<open>simp add: LongShortPool_settled_exact(4)[OF win amt]\<close>)
  also have "sum_list (map (\<lambda>x. stake x * (1 / W)) ws) = W * (1 / W)"
    by (simp only: sum_list_mult_const W_def)
  also have "W * (1 / W) = 1" using W0 by simp
  finally show "total_of winnings_share m = Fin 1" .
  have "total_of inverse_distance_to_pin_normalised m
          = Fin (sum_list (map (\<lambda>x. inv_distance c x * (1 / D)) ws))"
    unfolding m_def
    by (rule total_of_map_Fin)
       (use W0 D0 in \<open>simp add: LongShortPool_settled_exact(3)[OF win amt] inv_distance_def\<close>)
  also have "sum_list (map (\<lambda>x. inv_distance c x * (1 / D)) ws) = D * (1 / D)"
    by (simp only: sum_list_mult_const D_def)
  also have "D * (1 / D) = 1" using D0 by simp
  finally show "total_of inverse_distance_to_pin_normalised m = Fin 1" .
qed

lemma positive_stake:
  "pool_finite p \<Longrightarrow> amounts_positive p \<Longrightarrow> x \<in> set (risks p) \<Longrightarrow> 0 < stake x"
  using amounts_finite_Fin[of "risks p" x]
  by (auto simp: pool_finite_def amounts_positive_def list_all_iff split_def)

lemma nonnegative_stake:
  "pool_finite p \<Longrightarrow> amounts_nonnegative p \<Longrightarrow> x \<in> set (risks p) \<Longrightarrow> 0 \<le> stake x"
  using amounts_finite_Fin[of "risks p" x]
  by (auto simp: pool_finite_def amounts_nonnegative_def list_all_iff split_def)

lemma positive_winning_amount:
  assumes fin: "pool_finite p" and pos: "amounts_positive p"
    and wa: "\<And>r. WinningAmount E r level = (if IsWinner E r level then amount (tx r) else Fin 0)"
    and ne: "winners (IsWinner E) level (risks p) \<noteq> []"
  shows "TotalWinningAmount E p level \<noteq> Fin 0"
proof -
  have "0 < sum_list (map stake (winners (IsWinner E) level (risks p)))"
    using ne by (rule sum_list_pos_nonempty)
                (auto simp: winners_mem intro: positive_stake[OF fin pos])
  moreover have "TotalWinningAmount E p level
                   = Fin (sum_list (map stake (winners (IsWinner E) level (risks p))))"
    unfolding TotalWinningAmount_eq
    by (rule total_winning_finite[where wa = "\<lambda>r. WinningAmount E r level"
                and isw = "IsWinner E", OF wa pool_finite_totals(2)[OF fin]])
  ultimately show ?thesis by simp
qed


text \<open>
  C10. In exact arithmetic, with finite and positive stake amounts and at least one
  winner at the closing level, the settlement of a mutex pool returns a mapping whose
  winnings shares sum to 1, and the settlement of a long/short pool returns a mapping
  whose winnings shares sum to 1 and whose normalised inverse distances sum to 1.
\<close>

theorem shares_sum_to_one:
  "(map_ok (risks p) \<and> pool_finite p \<and> amounts_positive p
      \<and> winners MutexEvent_IsWinner level (risks p) \<noteq> [] \<longrightarrow>
      (\<exists>m. MutexPool_MakeWinningRisks p level = Inr m \<and> m \<noteq> []
           \<and> total_of winnings_share m = Fin 1))
   \<and> (map_ok (risks q) \<and> pool_finite q \<and> amounts_positive q
      \<and> winners LongShortEvent_IsWinner c (risks q) \<noteq> [] \<longrightarrow>
      (\<exists>m. LongShortPool_MakeWinningRisks q c = Inr m \<and> m \<noteq> []
           \<and> total_of winnings_share m = Fin 1
           \<and> total_of inverse_distance_to_pin_normalised m = Fin 1))"
proof (intro conjI impI)
  assume h: "map_ok (risks p) \<and> pool_finite p \<and> amounts_positive p
      \<and> winners MutexEvent_IsWinner level (risks p) \<noteq> []"
  then have ok: "map_ok (risks p)" and fin: "pool_finite p" and pos: "amounts_positive p"
    and ne: "winners (IsWinner MutexEvent_EVENT) level (risks p) \<noteq> []"
    by (simp_all add: MutexEvent_EVENT_def)
  have nz: "TotalWinningAmount MutexEvent_EVENT p level \<noteq> Fin 0"
    by (rule positive_winning_amount[OF fin pos _ ne])
       (simp add: MutexEvent_EVENT_def MutexEvent_WinningAmount_alt)
  note ex = MutexPool_exact[OF ok fin nz]
  let ?ws = "winners MutexEvent_IsWinner level (risks p)"
  let ?m = "map (\<lambda>(k, r). (k, MutexPool_winning_risk
               (Fin (sum_list (map stake (risks p)) * (1 - val (fees p))))
               (Fin (sum_list (map stake ?ws))) r)) ?ws"
  have "MutexPool_MakeWinningRisks p level = Inr ?m" by (rule ex(7))
  moreover have "?m \<noteq> []" using ex(3) by simp
  moreover have "total_of winnings_share ?m = Fin 1" by (rule ex(5))
  ultimately show "\<exists>m. MutexPool_MakeWinningRisks p level = Inr m \<and> m \<noteq> []
           \<and> total_of winnings_share m = Fin 1"
    by blast
next
  assume h: "map_ok (risks q) \<and> pool_finite q \<and> amounts_positive q
      \<and> winners LongShortEvent_IsWinner c (risks q) \<noteq> []"
  then have ok: "map_ok (risks q)" and fin: "pool_finite q" and pos: "amounts_positive q"
    and ne: "winners (IsWinner LongShortEvent_EVENT) c (risks q) \<noteq> []"
    by (simp_all add: LongShortEvent_EVENT_def)
  have nz: "TotalWinningAmount LongShortEvent_EVENT q c \<noteq> Fin 0"
    by (rule positive_winning_amount[OF fin pos _ ne])
       (simp add: LongShortEvent_EVENT_def LongShortEvent_WinningAmount_alt)
  note ex = LongShortPool_exact[OF ok fin nz]
  note sh = LongShortPool_exact_shares[OF ok fin nz]
  let ?ws = "winners LongShortEvent_IsWinner c (risks q)"
  let ?m = "map (\<lambda>(k, r). (k, LongShortPool_settled
               (Fin (sum_list (map stake (risks q)) * (1 - val (fees q))))
               (Fin (sum_list (map stake ?ws)))
               (Fin (sum_list (map (inv_distance c) ?ws))) c r)) ?ws"
  have "LongShortPool_MakeWinningRisks q c = Inr ?m" by (rule ex(8))
  moreover have "?m \<noteq> []" using ex(4) by simp
  moreover have "total_of winnings_share ?m = Fin 1" by (rule sh(1))
  moreover have "total_of inverse_distance_to_pin_normalised ?m = Fin 1" by (rule sh(2))
  ultimately show "\<exists>m. LongShortPool_MakeWinningRisks q c = Inr m \<and> m \<noteq> []
           \<and> total_of winnings_share m = Fin 1
           \<and> total_of inverse_distance_to_pin_normalised m = Fin 1"
    by blast
qed

lemma main_pools_positive:
  "amounts_positive mutex_pool"
  "winners MutexEvent_IsWinner ''default'' (risks mutex_pool) \<noteq> []"
  "amounts_positive (ls_pool u)"
  "winners LongShortEvent_IsWinner 56 (risks (ls_pool u)) \<noteq> []"
  by (simp_all add: mutex_pool_value ls_pool_value amounts_positive_def winners_def
        MutexEvent_IsWinner_def LongShortEvent_IsWinner_def
        stamp_def MutexEvent_make_def MutexEvent_init_def
        LongShortEvent_make_def LongShortEvent_init_def DefaultTX_init_def)

theorem shares_sum_to_one_witness:
  "map_ok (risks mutex_pool) \<and> pool_finite mutex_pool \<and> amounts_positive mutex_pool
   \<and> winners MutexEvent_IsWinner ''default'' (risks mutex_pool) \<noteq> []
   \<and> (\<exists>m. MutexPool_MakeWinningRisks mutex_pool ''default'' = Inr m \<and> m \<noteq> []
           \<and> total_of winnings_share m = Fin 1)
   \<and> map_ok (risks (ls_pool NaN)) \<and> pool_finite (ls_pool NaN)
   \<and> amounts_positive (ls_pool NaN)
   \<and> winners LongShortEvent_IsWinner 56 (risks (ls_pool NaN)) \<noteq> []
   \<and> (\<exists>m. LongShortPool_MakeWinningRisks (ls_pool NaN) 56 = Inr m \<and> m \<noteq> []
           \<and> total_of winnings_share m = Fin 1
           \<and> total_of inverse_distance_to_pin_normalised m = Fin 1)"
  using shares_sum_to_one[of mutex_pool "''default''" "ls_pool NaN" 56]
  by (simp add: mutex_pool_facts ls_pool_facts main_pools_positive)

subsection \<open>Distance to the pin and payoff\<close>

lemma LongShortPool_settled_simps:
  "price (LongShortPool_settled pv wv tid c r) = price r"
  "side (LongShortPool_settled pv wv tid c r) = side r"
  "amount (tx (LongShortPool_settled pv wv tid c r)) = amount (tx r)"
  by (simp_all add: LongShortPool_settled_def LongShortPool_reweight_simps
        LongShortPool_winning_risk_simps)

lemma LongShortPool_entry:
  fixes p :: "LongShortEvent Pool" and c :: int
  defines "ws \<equiv> winners LongShortEvent_IsWinner c (risks p)"
  defines "P \<equiv> sum_list (map stake (risks p)) * (1 - val (fees p))"
  defines "W \<equiv> sum_list (map stake ws)"
  defines "D \<equiv> sum_list (map (inv_distance c) ws)"
  assumes ok: "map_ok (risks p)" and fin: "pool_finite p"
    and res: "LongShortPool_MakeWinningRisks p c = Inr m"
    and mem: "(i, r) \<in> set m"
  shows "W \<noteq> 0 \<and> 0 < D
       \<and> (\<exists>r'. (i, r') \<in> set (risks p) \<and> LongShortEvent_IsWinner r' c
              \<and> r = LongShortPool_settled (Fin P) (Fin W) (Fin D) c r')"
proof -
  have nz: "TotalWinningAmount LongShortEvent_EVENT p c \<noteq> Fin 0"
  proof
    assume "TotalWinningAmount LongShortEvent_EVENT p c = Fin 0"
    from LongShortPool_zero_win[OF ok this] res have "m = []"
      by (simp split: if_splits)
    with mem show False by simp
  qed
  note ex = LongShortPool_exact[OF ok fin nz, folded ws_def, folded P_def W_def D_def]
  from ex(8) res
  have "m = map (\<lambda>(k, r). (k, LongShortPool_settled (Fin P) (Fin W) (Fin D) c r)) ws"
    by simp
  with mem obtain x where x: "x \<in> set ws" "i = fst x"
      "r = LongShortPool_settled (Fin P) (Fin W) (Fin D) c (snd x)"
    by (auto simp: split_def)
  from x(1) have "(fst x, snd x) \<in> set (risks p)" "LongShortEvent_IsWinner (snd x) c"
    by (simp_all add: ws_def winners_mem)
  with x(2,3) ex(2,3) show ?thesis by blast
qed

lemma inverse_distance_mono:
  assumes "0 < (d1::int)" "d1 < d2"
  shows "1 / real_of_int d2 \<le> 1 / real_of_int d1"
  using assms by (simp add: frac_le)


text \<open>
  C4, amended. In a long/short pool with finite, non-negative stake amounts and a fee
  rate of at most 1, whose prices, closing price and their differences are values of a
  32-bit \<^verbatim>\<open>int\<close>, settled in exact arithmetic: of two winners of one returned settlement,
  the one strictly closer to the closing price has a payout greater than or equal to the
  other's. Its payoff is greater than or equal to the other's if, in addition, its stake
  amount is positive and not larger than the other's; this condition is sufficient, not
  necessary.
\<close>

theorem closer_winner_payout:
  assumes ok: "map_ok (risks p)" and fin: "pool_finite p"
    and nn: "amounts_nonnegative p" and fee: "\<not> dless (Fin 1) (fees p)"
    and rng: "prices_in_range p c"
    and res: "LongShortPool_MakeWinningRisks p c = Inr m"
    and m1: "(i, r1) \<in> set m" and m2: "(j, r2) \<in> set m"
    and closer: "distance_to_pin r1 c < distance_to_pin r2 c"
  shows "(\<exists>x y. payout (tx r1) = Fin x \<and> payout (tx r2) = Fin y \<and> y \<le> x)
       \<and> (dless (Fin 0) (amount (tx r1)) \<and> \<not> dless (amount (tx r2)) (amount (tx r1)) \<longrightarrow>
            (\<exists>u v. payoff r1 = Fin u \<and> payoff r2 = Fin v \<and> v \<le> u))"
proof -
  let ?ws = "winners LongShortEvent_IsWinner c (risks p)"
  define T where "T = sum_list (map stake (risks p))"
  define P where "P = T * (1 - val (fees p))"
  define W where "W = sum_list (map stake ?ws)"
  define D where "D = sum_list (map (inv_distance c) ?ws)"
  note e1 = LongShortPool_entry[OF ok fin res m1, folded T_def, folded P_def W_def D_def]
  note e2 = LongShortPool_entry[OF ok fin res m2, folded T_def, folded P_def W_def D_def]
  from e1 have W0: "W \<noteq> 0" and D0: "0 < D" by simp_all
  from e1 obtain q1 where q1: "(i, q1) \<in> set (risks p)" "LongShortEvent_IsWinner q1 c"
      "r1 = LongShortPool_settled (Fin P) (Fin W) (Fin D) c q1" by blast
  from e2 obtain q2 where q2: "(j, q2) \<in> set (risks p)" "LongShortEvent_IsWinner q2 c"
      "r2 = LongShortPool_settled (Fin P) (Fin W) (Fin D) c q2" by blast
  note pf = pool_finite_totals[OF fin]
  have a1: "amount (tx q1) = Fin (stake (i, q1))" and a2: "amount (tx q2) = Fin (stake (j, q2))"
    using amounts_finite_Fin[OF pf(2) q1(1)] amounts_finite_Fin[OF pf(2) q2(1)] by simp_all
  have s1: "0 \<le> stake (i, q1)" and s2: "0 \<le> stake (j, q2)"
    using nonnegative_stake[OF fin nn q1(1)] nonnegative_stake[OF fin nn q2(1)] by simp_all
  have T0: "0 \<le> T"
    unfolding T_def by (rule sum_list_nonneg_real) (rule nonnegative_stake[OF fin nn])
  have "val (fees p) \<le> 1" using fee by (subst (asm) pf(1)) simp
  with T0 have P0: "0 \<le> P" by (simp add: P_def)
  define d1 where "d1 = distance_to_pin q1 c"
  define d2 where "d2 = distance_to_pin q2 c"
  have d: "0 < d1" "d1 < d2"
    using winner_distance_pos[OF q1(2)] closer
    by (simp_all add: d1_def d2_def q1(3) q2(3) distance_to_pin_def LongShortPool_settled_simps)
  define x where "x = 1 / of_int d1 * (P / D)"
  define y where "y = 1 / of_int d2 * (P / D)"
  have px: "payout (tx r1) = Fin x"
    unfolding q1(3) LongShortPool_settled_exact(2)[OF q1(2) a1 W0 less_imp_neq[OF D0, symmetric]]
    using W0 by (simp add: x_def d1_def)
  have py: "payout (tx r2) = Fin y"
    unfolding q2(3) LongShortPool_settled_exact(2)[OF q2(2) a2 W0 less_imp_neq[OF D0, symmetric]]
    using W0 by (simp add: y_def d2_def)
  have PD: "0 \<le> P / D" using P0 D0 by simp
  have yx: "y \<le> x"
    unfolding x_def y_def by (rule mult_right_mono[OF inverse_distance_mono[OF d] PD])
  have "0 \<le> 1 / real_of_int d2" using d by simp
  then have y0: "0 \<le> y" unfolding y_def using PD by (rule mult_nonneg_nonneg)
  have payoffs: "\<exists>u v. payoff r1 = Fin u \<and> payoff r2 = Fin v \<and> v \<le> u"
    if h: "dless (Fin 0) (amount (tx r1)) \<and> \<not> dless (amount (tx r2)) (amount (tx r1))"
  proof -
    from h have pos: "0 < stake (i, q1)" and le: "stake (i, q1) \<le> stake (j, q2)"
      by (simp_all add: q1(3) q2(3) LongShortPool_settled_simps a1 a2)
    have u: "payoff r1 = Fin (x / stake (i, q1))"
      unfolding q1(3) LongShortPool_settled_exact(5)[OF q1(2) a1 W0 less_imp_neq[OF D0, symmetric]]
      using W0 pos by (simp add: x_def d1_def)
    have v: "payoff r2 = Fin (y / stake (j, q2))"
      unfolding q2(3) LongShortPool_settled_exact(5)[OF q2(2) a2 W0 less_imp_neq[OF D0, symmetric]]
      using W0 pos le by (simp add: y_def d2_def)
    have "y / stake (j, q2) \<le> x / stake (i, q1)"
      using y0 yx by (intro frac_le[OF _ yx pos le]) simp
    with u v show ?thesis by blast
  qed
  from px py yx payoffs show ?thesis by blast
qed


lemma ls_pool_winners:
  "winners LongShortEvent_IsWinner 56 (risks (ls_pool u)) =
     [(0, stamp (LongShortEvent_make Long 50 u) 0 (Fin 500) ''barney''),
      (1, stamp (LongShortEvent_make Long 55 u) 1 (Fin 250) ''barney''),
      (3, stamp (LongShortEvent_make Short 60 u) 3 (Fin 700) ''arnold'')]"
  by (simp add: ls_pool_value winners_def LongShortEvent_IsWinner_def stamp_def
        LongShortEvent_make_def LongShortEvent_init_def)

lemma ls_pool_sums:
  "sum_list (map stake (risks (ls_pool u))) * (1 - val (fees (ls_pool u))) = 11349 / 2"
  "sum_list (map stake (winners LongShortEvent_IsWinner 56 (risks (ls_pool u)))) = 1450"
  "sum_list (map (inv_distance 56) (winners LongShortEvent_IsWinner 56 (risks (ls_pool u))))
     = 17 / 12"
  unfolding ls_pool_winners
  by (simp_all add: ls_pool_value stake_def inv_distance_def distance_to_pin_def stamp_def
        LongShortEvent_make_def LongShortEvent_init_def)

lemma ls_pool_settled:
  "LongShortPool_MakeWinningRisks (ls_pool u) 56 =
     Inr [(0, LongShortPool_settled (Fin (11349 / 2)) (Fin 1450) (Fin (17 / 12)) 56
                (stamp (LongShortEvent_make Long 50 u) 0 (Fin 500) ''barney'')),
          (1, LongShortPool_settled (Fin (11349 / 2)) (Fin 1450) (Fin (17 / 12)) 56
                (stamp (LongShortEvent_make Long 55 u) 1 (Fin 250) ''barney'')),
          (3, LongShortPool_settled (Fin (11349 / 2)) (Fin 1450) (Fin (17 / 12)) 56
                (stamp (LongShortEvent_make Short 60 u) 3 (Fin 700) ''arnold''))]"
proof -
  have nz: "TotalWinningAmount LongShortEvent_EVENT (ls_pool u) 56 \<noteq> Fin 0"
    by (simp add: ls_pool_facts)
  show ?thesis
    unfolding LongShortPool_exact(8)[OF ls_pool_facts(1,2) nz] ls_pool_sums
    by (simp add: ls_pool_winners)
qed

lemma pin_pool_value:
  "pin_pool u =
     \<lparr>tx_counter = 2, fees = Fin (3 / 100),
      risks =
        [(0, stamp (LongShortEvent_make Long 55 u) 0 (Fin 1000) ''barney''),
         (1, stamp (LongShortEvent_make Long 50 u) 1 (Fin 1) ''arnold'')]\<rparr>"
  by (simp add: pin_pool_def Pool_init_def MakeRisk_def stamp_def Let_def)

lemma pin_pool_facts:
  "map_ok (risks (pin_pool u))"
  "pool_finite (pin_pool u)"
  "TotalWinningAmount LongShortEvent_EVENT (pin_pool u) 56 = Fin 1001"
  by (simp_all add: pin_pool_value map_ok_def pool_finite_def
        TotalWinningAmount_def LongShortEvent_EVENT_def LongShortEvent_WinningAmount_def
        stamp_def LongShortEvent_make_def LongShortEvent_init_def DefaultTX_init_def)

lemma pin_pool_winners:
  "winners LongShortEvent_IsWinner 56 (risks (pin_pool u)) = risks (pin_pool u)"
  by (simp add: pin_pool_value winners_def LongShortEvent_IsWinner_def stamp_def
        LongShortEvent_make_def LongShortEvent_init_def)

lemma pin_pool_sums:
  "sum_list (map stake (risks (pin_pool u))) * (1 - val (fees (pin_pool u))) = 97097 / 100"
  "sum_list (map stake (risks (pin_pool u))) = 1001"
  "sum_list (map (inv_distance 56) (risks (pin_pool u))) = 7 / 6"
  by (simp_all add: pin_pool_value stake_def inv_distance_def distance_to_pin_def stamp_def
        LongShortEvent_make_def LongShortEvent_init_def)

lemma pin_pool_settled:
  "LongShortPool_MakeWinningRisks (pin_pool u) 56 =
     Inr [(0, LongShortPool_settled (Fin (97097 / 100)) (Fin 1001) (Fin (7 / 6)) 56
                (stamp (LongShortEvent_make Long 55 u) 0 (Fin 1000) ''barney'')),
          (1, LongShortPool_settled (Fin (97097 / 100)) (Fin 1001) (Fin (7 / 6)) 56
                (stamp (LongShortEvent_make Long 50 u) 1 (Fin 1) ''arnold''))]"
proof -
  have nz: "TotalWinningAmount LongShortEvent_EVENT (pin_pool u) 56 \<noteq> Fin 0"
    by (simp add: pin_pool_facts)
  show ?thesis
    unfolding LongShortPool_exact(8)[OF pin_pool_facts(1,2) nz] pin_pool_winners pin_pool_sums
    by (simp add: pin_pool_value)
qed

text \<open>
  C4, as stated, fails. In the pool with the long stakes 1000 at price 55 and 1 at
  price 50, settled at 56, both stakes win; the first is at distance 1 and has the
  payoff 0.83226, the second is at distance 6 and has the payoff 138.71.
\<close>

theorem closer_winner_payoff_counterexample:
  "\<exists>w0 w1. LongShortPool_MakeWinningRisks (pin_pool NaN) 56 = Inr [(0, w0), (1, w1)]
      \<and> distance_to_pin w0 56 = 1 \<and> distance_to_pin w1 56 = 6
      \<and> payoff w0 = Fin (83226 / 100000) \<and> payoff w1 = Fin (13871 / 100)
      \<and> dless (payoff w0) (payoff w1)"
  unfolding pin_pool_settled
  by (simp add: distance_to_pin_def LongShortPool_settled_def LongShortPool_reweight_simps
        LongShortPool_winning_risk_simps WinningInverseDistance_def stamp_def
        LongShortEvent_make_def LongShortEvent_init_def)


lemma ls_pool_nonnegative:
  "amounts_nonnegative (ls_pool u)"
  "\<not> dless (Fin 1) (fees (ls_pool u))"
  "prices_in_range (ls_pool u) 56"
  by (simp_all add: ls_pool_value amounts_nonnegative_def prices_in_range_def int_range_def
        stamp_def LongShortEvent_make_def LongShortEvent_init_def)

theorem closer_winner_payout_witness:
  "map_ok (risks (ls_pool NaN)) \<and> pool_finite (ls_pool NaN)
   \<and> amounts_nonnegative (ls_pool NaN) \<and> \<not> dless (Fin 1) (fees (ls_pool NaN))
   \<and> prices_in_range (ls_pool NaN) 56
   \<and> (\<exists>w0 w1 w3.
         LongShortPool_MakeWinningRisks (ls_pool NaN) 56 = Inr [(0, w0), (1, w1), (3, w3)]
       \<and> distance_to_pin w1 56 = 1 \<and> distance_to_pin w3 56 = 4
       \<and> dless (Fin 0) (amount (tx w1)) \<and> \<not> dless (amount (tx w3)) (amount (tx w1))
       \<and> (\<exists>x y. payout (tx w1) = Fin x \<and> payout (tx w3) = Fin y \<and> y \<le> x)
       \<and> (\<exists>u v. payoff w1 = Fin u \<and> payoff w3 = Fin v \<and> v \<le> u))"
proof -
  let ?w1 = "LongShortPool_settled (Fin (11349 / 2)) (Fin 1450) (Fin (17 / 12)) 56
               (stamp (LongShortEvent_make Long 55 NaN) 1 (Fin 250) ''barney'')"
  let ?w3 = "LongShortPool_settled (Fin (11349 / 2)) (Fin 1450) (Fin (17 / 12)) 56
               (stamp (LongShortEvent_make Short 60 NaN) 3 (Fin 700) ''arnold'')"
  have d: "distance_to_pin ?w1 56 = 1" "distance_to_pin ?w3 56 = 4"
    by (simp_all add: distance_to_pin_def LongShortPool_settled_simps stamp_def
          LongShortEvent_make_def LongShortEvent_init_def)
  have a: "dless (Fin 0) (amount (tx ?w1))" "\<not> dless (amount (tx ?w3)) (amount (tx ?w1))"
    by (simp_all add: LongShortPool_settled_simps stamp_def)
  have closer: "distance_to_pin ?w1 56 < distance_to_pin ?w3 56" by (simp add: d)
  have "(\<exists>x y. payout (tx ?w1) = Fin x \<and> payout (tx ?w3) = Fin y \<and> y \<le> x)
      \<and> (\<exists>u v. payoff ?w1 = Fin u \<and> payoff ?w3 = Fin v \<and> v \<le> u)"
    using closer_winner_payout[where i = 1 and j = 3,
            OF ls_pool_facts(1,2) ls_pool_nonnegative ls_pool_settled _ _ closer] a
    by simp
  then show ?thesis
    using d a by (simp add: ls_pool_facts ls_pool_nonnegative ls_pool_settled)
qed

subsection \<open>Pro-forma valuation leaves the pool unchanged\<close>

lemma call_at_take: "n \<le> this \<Longrightarrow> take n (snd (call_at m s this)) = take n s"
  by (simp add: call_at_def split_def Let_def)

lemma ProFormaReturn_store: "snd (ProFormaReturn E mwr s this ev amt level) = s"
  using call_at_take[of "length s" "length s" _ "s @ [s ! this]"]
  by (simp add: ProFormaReturn_def Let_def split_def)

lemma ForEachLevel_loop_store:
  assumes "\<And>l st. snd (snd (f l st)) = snd st"
  shows "snd (snd (ForEachLevel_loop f levels st)) = snd st"
proof (induction levels arbitrary: st)
  case Nil
  then show ?case by simp
next
  case (Cons l levels)
  obtain e st' where fl: "f l st = (e, st')" by (cases "f l st") auto
  have st': "snd st' = snd st" using assms[of l st] by (simp add: fl)
  show ?case
    using Cons.IH[of st'] st' by (cases e) (simp_all add: fl)
qed

lemma ProFormaPayoffCurve_store:
  fixes E :: "('a TxEvent_scheme, 'l::linorder) EVENT"
  shows "snd (ProFormaPayoffCurve E mwr s this ev amt) = s"
proof -
  let ?f = "\<lambda>level (result :: ('l \<times> dbl) list, s').
                case ProFormaReturn E mwr s' this ev amt level of
                  (Inl e, s'') \<Rightarrow> (Some e, (result, s''))
                | (Inr b, s'') \<Rightarrow> (None, (map_set level (payoff b) result, s''))"
  have f: "snd (snd (?f l st)) = snd st" for l st
  proof -
    obtain result s' where st: "st = (result, s')" by (cases st) auto
    obtain r s'' where pr: "ProFormaReturn E mwr s' this ev amt l = (r, s'')"
      by (cases "ProFormaReturn E mwr s' this ev amt l") auto
    have "s'' = s'" using ProFormaReturn_store[of E mwr s' this ev amt l] by (simp add: pr)
    then show ?thesis
      by (cases r) (simp_all add: st pr)
  qed
  have loop: "snd (snd (ForEachLevel_loop ?f levels ([], s))) = s" for levels
    using ForEachLevel_loop_store[of ?f levels "([], s)", OF f] by simp
  show ?thesis
  proof (cases "MakeLevelSet E (s ! this)")
    case (Inl e)
    then show ?thesis by (simp add: ProFormaPayoffCurve_def ForEachLevel_def)
  next
    case (Inr levels)
    obtain e result s' where l: "ForEachLevel_loop ?f levels ([], s) = (e, result, s')"
      by (cases "ForEachLevel_loop ?f levels ([], s)") auto
    have "s' = s" using loop[of levels] by (simp add: l)
    then show ?thesis
      by (cases e) (simp_all add: ProFormaPayoffCurve_def ForEachLevel_def Inr l)
  qed
qed

text \<open>By contrast \<^verbatim>\<open>ProFormaReturnHelper\<close>, called on the pool itself, changes it.\<close>

lemma ProFormaReturnHelper_mutates:
  "this < length s \<Longrightarrow>
     tx_counter (snd (call_at (\<lambda>p. ProFormaReturnHelper E mwr p ev amt level) s this) ! this)
       = tx_counter (s ! this) + 1"
  by (simp add: call_at_def ProFormaReturnHelper_def MakeRisk_def Let_def split_def
           split: sum.splits option.splits)

text \<open>
  C6. \<^verbatim>\<open>ProFormaReturn\<close> and \<^verbatim>\<open>ProFormaPayoffCurve\<close>, called on the pool at address
  \<open>this\<close>, leave the store as it was, whether they return a value or end with an error:
  the pool at \<open>this\<close> is the same object value, so its counter, its risks, its total
  pool and its total winning amount at every level are unchanged.
\<close>

theorem ProForma_leaves_pool_unchanged:
  fixes E :: "('a TxEvent_scheme, 'l::linorder) EVENT"
  shows "snd (ProFormaReturn E mwr s this ev amt level) = s
       \<and> snd (ProFormaPayoffCurve E mwr s this ev amt) = s
       \<and> tx_counter (snd (ProFormaReturn E mwr s this ev amt level) ! this)
           = tx_counter (s ! this)
       \<and> risks (snd (ProFormaReturn E mwr s this ev amt level) ! this) = risks (s ! this)
       \<and> TotalPool (snd (ProFormaReturn E mwr s this ev amt level) ! this)
           = TotalPool (s ! this)
       \<and> TotalWinningAmount E (snd (ProFormaReturn E mwr s this ev amt level) ! this) l
           = TotalWinningAmount E (s ! this) l
       \<and> tx_counter (snd (ProFormaPayoffCurve E mwr s this ev amt) ! this)
           = tx_counter (s ! this)
       \<and> risks (snd (ProFormaPayoffCurve E mwr s this ev amt) ! this) = risks (s ! this)
       \<and> TotalPool (snd (ProFormaPayoffCurve E mwr s this ev amt) ! this)
           = TotalPool (s ! this)
       \<and> TotalWinningAmount E (snd (ProFormaPayoffCurve E mwr s this ev amt) ! this) l
           = TotalWinningAmount E (s ! this) l"
  by (simp add: ProFormaReturn_store ProFormaPayoffCurve_store)


lemmas eval_defs =
  ProFormaReturn_def call_at_def ProFormaReturnHelper_def MakeRisk_def Let_def
  MutexPool_MakeWinningRisks_def MutexPool_winning_risk_def TotalPool_def Fees_def
  TotalWinningAmount_def MutexEvent_EVENT_def MutexEvent_WinningAmount_def
  MutexEvent_IsWinner_def Close_def dsub_def
  stamp_def MutexEvent_make_def MutexEvent_init_def DefaultTX_init_def PoolAccount_def

lemma ProFormaReturn_mutex_pool:
  "fst (ProFormaReturn MutexEvent_EVENT MutexPool_MakeWinningRisks [mutex_pool] 0
          (MutexEvent_make ''default'') (Fin 1000) ''nobody'') = Inl AssertionFailed"
  "\<exists>r. fst (ProFormaReturn MutexEvent_EVENT MutexPool_MakeWinningRisks [mutex_pool] 0
          (MutexEvent_make ''default'') (Fin 1000) ''default'') = Inr r
       \<and> payoff r = Fin (18430 / 4000) \<and> payout (tx r) = Fin (18430 / 4)"
  "fst (ProFormaReturn MutexEvent_EVENT MutexPool_MakeWinningRisks [mutex_pool] 0
          (MutexEvent_make ''default'') (Fin 1000) ''no_default'') = Inr MutexEvent_init"
  by (simp_all add: mutex_pool_value eval_defs)

theorem ProForma_leaves_pool_unchanged_witness:
  "fst (ProFormaReturn MutexEvent_EVENT MutexPool_MakeWinningRisks [mutex_pool] 0
          (MutexEvent_make ''default'') (Fin 1000) ''nobody'') = Inl AssertionFailed
   \<and> snd (ProFormaReturn MutexEvent_EVENT MutexPool_MakeWinningRisks [mutex_pool] 0
          (MutexEvent_make ''default'') (Fin 1000) ''nobody'') = [mutex_pool]
   \<and> snd (ProFormaPayoffCurve MutexEvent_EVENT MutexPool_MakeWinningRisks [mutex_pool] 0
          (MutexEvent_make ''default'') (Fin 1000)) = [mutex_pool]
   \<and> tx_counter (snd (call_at (\<lambda>p. ProFormaReturnHelper MutexEvent_EVENT
          MutexPool_MakeWinningRisks p (MutexEvent_make ''default'') (Fin 1000) ''nobody'')
          [mutex_pool] 0) ! 0) = 5
   \<and> tx_counter mutex_pool = 4"
  using ProForma_leaves_pool_unchanged[of MutexEvent_EVENT MutexPool_MakeWinningRisks
          "[mutex_pool]" 0 "MutexEvent_make ''default''" "Fin 1000" "''nobody''"]
        ProFormaReturn_mutex_pool(1) ProFormaReturnHelper_mutates[of 0 "[mutex_pool]"]
  by (simp add: mutex_pool_value)

subsection \<open>MakeLevelSet\<close>

lemma levels_fold:
  "sorted acc \<Longrightarrow> distinct acc \<Longrightarrow>
     sorted (foldl (\<lambda>ls x. insort_insert (g x) ls) acc xs)
   \<and> distinct (foldl (\<lambda>ls x. insort_insert (g x) ls) acc xs)
   \<and> set (foldl (\<lambda>ls x. insort_insert (g x) ls) acc xs) = set acc \<union> g ` set xs"
proof (induction xs arbitrary: acc)
  case Nil
  then show ?case by simp
next
  case (Cons x xs)
  have "sorted (insort_insert (g x) acc)" "distinct (insort_insert (g x) acc)"
    using Cons.prems by (simp_all add: sorted_insort_insert distinct_insort_insert)
  from Cons.IH[OF this] show ?case by (simp add: set_insort_insert)
qed

lemma sorted_hd_least: "sorted xs \<Longrightarrow> xs \<noteq> [] \<Longrightarrow> hd xs = Min (set xs)"
  by (cases xs) (auto intro!: Min_eqI[symmetric])

lemma sorted_last_greatest: "sorted xs \<Longrightarrow> xs \<noteq> [] \<Longrightarrow> last xs = Max (set xs)"
proof (induction xs)
  case Nil
  then show ?case by simp
next
  case (Cons x xs)
  show ?case
  proof (cases xs)
    case Nil
    then show ?thesis by simp
  next
    case (Cons y ys)
    with Cons.prems Cons.IH have "last xs = Max (set xs)" by simp
    moreover have "x \<le> Max (set xs)" using Cons.prems Cons by (auto intro: Max_ge_iff[THEN iffD2])
    ultimately show ?thesis using Cons by (simp add: max_def)
  qed
qed

text \<open>
  What \<^verbatim>\<open>MakeLevelSet\<close> returns: for a level type that is not arithmetic, the levels
  of the risks; for an arithmetic level type and a pool with a risk, these levels with
  one tick under the least and one tick over the greatest; for an arithmetic level type
  and a pool without risks it reads the first element of an empty set.
\<close>

lemma MakeLevelSet_levels:
  fixes E :: "('e, 'l::linorder) EVENT"
  shows "is_arithmetic E = None \<Longrightarrow>
           \<exists>ls. MakeLevelSet E p = Inr ls \<and> sorted ls \<and> distinct ls
                \<and> set ls = level_keys E p"
    and "is_arithmetic E = Some (one_under, one_over) \<Longrightarrow> risks p \<noteq> [] \<Longrightarrow>
           \<exists>ls. MakeLevelSet E p = Inr ls \<and> sorted ls \<and> distinct ls
                \<and> set ls = level_keys E p
                     \<union> {one_under (Min (level_keys E p)), one_over (Max (level_keys E p))}"
    and "is_arithmetic E = Some (one_under, one_over) \<Longrightarrow> risks p = [] \<Longrightarrow>
           MakeLevelSet E p = Inl UndefinedBehaviour"
proof -
  let ?levels = "foldl (\<lambda>ls (k, risk). insort_insert (GetLevel E risk) ls) [] (risks p)"
  have eq: "?levels = foldl (\<lambda>ls x. insort_insert (GetLevel E (snd x)) ls) [] (risks p)"
    by (simp add: split_def)
  have l: "sorted ?levels" "distinct ?levels" "set ?levels = level_keys E p"
    unfolding eq using levels_fold[of "[]" "\<lambda>x. GetLevel E (snd x)" "risks p"]
    by (simp_all add: level_keys_def image_image)
  show "is_arithmetic E = None \<Longrightarrow>
           \<exists>ls. MakeLevelSet E p = Inr ls \<and> sorted ls \<and> distinct ls
                \<and> set ls = level_keys E p"
    using l by (simp add: MakeLevelSet_def Let_def)
  show "MakeLevelSet E p = Inl UndefinedBehaviour"
    if "is_arithmetic E = Some (one_under, one_over)" "risks p = []"
    using that by (simp add: MakeLevelSet_def)
  show "\<exists>ls. MakeLevelSet E p = Inr ls \<and> sorted ls \<and> distinct ls
                \<and> set ls = level_keys E p
                     \<union> {one_under (Min (level_keys E p)), one_over (Max (level_keys E p))}"
    if a: "is_arithmetic E = Some (one_under, one_over)" and ne: "risks p \<noteq> []"
  proof -
    from ne l(3) have ne': "?levels \<noteq> []" by (auto simp: level_keys_def)
    have hd: "hd ?levels = Min (level_keys E p)" and last: "last ?levels = Max (level_keys E p)"
      using sorted_hd_least[OF l(1) ne'] sorted_last_greatest[OF l(1) ne'] l(3) by simp_all
    have "MakeLevelSet E p =
            Inr (insort_insert (one_over (last ?levels))
                   (insort_insert (one_under (hd ?levels)) ?levels))"
      using a ne' by (simp add: MakeLevelSet_def Let_def)
    then show ?thesis
      using l by (auto simp: hd last sorted_insort_insert distinct_insort_insert
                    set_insort_insert)
  qed
qed


lemma MakeLevelSet_main_pools:
  "MakeLevelSet MutexEvent_EVENT mutex_pool = Inr [''default'', ''no_default'']"
  "MakeLevelSet LongShortEvent_EVENT (ls_pool u) = Inr [39, 40, 50, 55, 60, 61]"
  by (simp_all add: MakeLevelSet_def mutex_pool_value ls_pool_value
        MutexEvent_EVENT_def MutexEvent_GetLevel_def
        LongShortEvent_EVENT_def LongShortEvent_GetLevel_def
        stamp_def MutexEvent_make_def MutexEvent_init_def
        LongShortEvent_make_def LongShortEvent_init_def insort_insert_key_def)

text \<open>
  C7 at the pool that has no risk. In the long/short pool, whose level type is \<^verbatim>\<open>int\<close>,
  \<^verbatim>\<open>MakeLevelSet\<close> reads \<^verbatim>\<open>*levels.begin()\<close> of the empty set: it does not return
  the empty set. In the mutex pool, whose level type is \<^verbatim>\<open>std::string\<close>, it returns
  the empty set.
\<close>

theorem MakeLevelSet_empty_pool:
  "MakeLevelSet LongShortEvent_EVENT Pool_init = Inl UndefinedBehaviour
   \<and> MakeLevelSet MutexEvent_EVENT Pool_init = Inr []"
  by (simp add: MakeLevelSet_def Pool_init_def LongShortEvent_EVENT_def MutexEvent_EVENT_def)

subsection \<open>The invariant of std::map is kept\<close>

lemma keys_map_set: "fst ` set (map_set k v m) = insert k (fst ` set m)"
proof (induction m)
  case Nil
  then show ?case by simp
next
  case (Cons x m)
  obtain k' v' where x: "x = (k', v')" by (cases x) auto
  show ?case using Cons.IH by (auto simp: x image_iff)
qed

lemma map_ok_map_set: "map_ok m \<Longrightarrow> map_ok (map_set k v m)"
proof (induction m)
  case Nil
  then show ?case by (simp add: map_ok_def)
next
  case (Cons x m)
  obtain k' v' where x: "x = (k', v')" by (cases x) auto
  from Cons.prems have ok: "map_ok m" and lt: "\<forall>j \<in> fst ` set m. k' < j"
    by (simp_all add: x map_ok_Cons)
  show ?case
  proof (cases "k < k'")
    case True
    then show ?thesis using Cons.prems lt by (auto simp: x map_ok_Cons)
  next
    case False
    show ?thesis
    proof (cases "k = k'")
      case True
      then show ?thesis using ok lt by (simp add: x map_ok_Cons)
    next
      case ne: False
      with False have "k' < k" by simp
      then show ?thesis
        using Cons.IH[OF ok] lt False ne by (simp add: x map_ok_Cons keys_map_set)
    qed
  qed
qed

lemma map_ok_MakeRisk: "map_ok (risks p) \<Longrightarrow> map_ok (risks (snd (MakeRisk p ev amt who)))"
  by (simp add: MakeRisk_risks map_ok_map_set)

lemma map_ok_register_all:
  "map_ok (risks p) \<Longrightarrow> map_ok (risks (snd (register_all p regs)))"
proof (induction regs arbitrary: p)
  case Nil
  then show ?case by simp
next
  case (Cons reg regs)
  obtain ev amt who where reg: "reg = (ev, amt, who)" by (cases reg) auto
  show ?case
    using Cons.IH[OF map_ok_MakeRisk[OF Cons.prems, of ev amt who]]
    by (simp add: reg split_beta Let_def)
qed


text \<open>Every pool filled by calls of \<^verbatim>\<open>MakeRisk\<close> on a new pool keeps its risks in
  ascending key order.\<close>

lemma map_ok_fresh_run:
  "map_ok (risks (snd (register_all (Pool_init\<lparr>fees := f\<rparr>) regs)))"
  by (rule map_ok_register_all) (simp add: Pool_init_def map_ok_def)

end
